theory Spec2Isabelle
  imports Main "HOL-Library.AList" "HOL-Library.Word"
begin

section \<open>Text helpers of the scraper\<close>

text \<open>
  Python strings are modelled as HOL strings.  The character classes of the regular
  expressions and of the string methods are modelled on the ASCII range: \<open>\s\<close> and
  \<open>str.strip()\<close> as the ten ASCII white-space characters of Python, \<open>\w\<close> as
  letters, digits and the underscore, \<open>\d\<close> as the ten digits, \<open>lower()\<close> on
  \<open>A..Z\<close>.
\<close>

definition py_space :: "char \<Rightarrow> bool" where
  "py_space c =
     (let n = (of_char c :: nat) in (9 \<le> n \<and> n \<le> 13) \<or> (28 \<le> n \<and> n \<le> 32))"

definition is_digit :: "char \<Rightarrow> bool" where
  "is_digit c = (let n = (of_char c :: nat) in 48 \<le> n \<and> n \<le> 57)"

definition is_alpha :: "char \<Rightarrow> bool" where
  "is_alpha c =
     (let n = (of_char c :: nat) in (65 \<le> n \<and> n \<le> 90) \<or> (97 \<le> n \<and> n \<le> 122))"


definition lower_char :: "char \<Rightarrow> char" where
  "lower_char c =
     (let n = (of_char c :: nat) in if 65 \<le> n \<and> n \<le> 90 then char_of (n + 32) else c)"

definition lower :: "string \<Rightarrow> string" where
  "lower s = map lower_char s"

text \<open>\<open>s.strip()\<close> and \<open>s.strip(chars)\<close>.\<close>

definition strip_by :: "(char \<Rightarrow> bool) \<Rightarrow> string \<Rightarrow> string" where
  "strip_by p s = rev (dropWhile p (rev (dropWhile p s)))"

definition strip :: "string \<Rightarrow> string" where
  "strip s = strip_by py_space s"

text \<open>
  Replacing every maximal run of characters of a class by \<open>rep\<close>;
  \<open>re.sub(r"\s+", rep, s)\<close> is the instance for Python's white space.
\<close>

function collapse_runs :: "(char \<Rightarrow> bool) \<Rightarrow> string \<Rightarrow> string \<Rightarrow> string" where
  "collapse_runs p rep [] = []"
| "collapse_runs p rep (c # cs) =
     (if p c then rep @ collapse_runs p rep (dropWhile p cs)
      else c # collapse_runs p rep cs)"
  by pat_completeness auto
termination
  by (relation "measure (\<lambda>(p, rep, s). length s)")
     (auto simp: length_dropWhile_le less_Suc_eq_le)

definition sub_spaces :: "string \<Rightarrow> string \<Rightarrow> string" where
  "sub_spaces rep s = collapse_runs py_space rep s"

text \<open>
  XPath's \<open>normalize-space\<close>, on the four XML white-space characters: leading and
  trailing white space is removed and every inner run becomes one space.
\<close>

definition xml_space :: "char \<Rightarrow> bool" where
  "xml_space c = (let n = (of_char c :: nat) in n = 32 \<or> n = 9 \<or> n = 10 \<or> n = 13)"

definition normalize_space :: "string \<Rightarrow> string" where
  "normalize_space s = collapse_runs xml_space '' '' (strip_by xml_space s)"

text \<open>
  \<open>re.sub(r":\s*$", "", s)\<close>: the match starts at the first colon that only white space
  follows, and reaches the end of the string.
\<close>

fun sub_final_colon :: "string \<Rightarrow> string" where
  "sub_final_colon [] = []"
| "sub_final_colon (c # cs) =
     (if c = CHR '':'' \<and> list_all py_space cs then [] else c # sub_final_colon cs)"

text \<open>\<open>_norm\<close> and \<open>_clean_header\<close> of the spider.\<close>

definition norm :: "string \<Rightarrow> string" where
  "norm s = sub_spaces '' '' (strip s)"

definition clean_header :: "string \<Rightarrow> string" where
  "clean_header s = sub_final_colon (sub_spaces '' '' (strip s))"

text \<open>Substring test (\<open>a in s\<close>) and \<open>s.startswith(a)\<close>.\<close>

fun starts_with :: "string \<Rightarrow> string \<Rightarrow> bool" where
  "starts_with [] s = True"
| "starts_with (a # as) [] = False"
| "starts_with (a # as) (c # cs) = (a = c \<and> starts_with as cs)"

fun contains :: "string \<Rightarrow> string \<Rightarrow> bool" where
  "contains a [] = (a = [])"
| "contains a (c # cs) = (starts_with a (c # cs) \<or> contains a cs)"

text \<open>\<open>int(ds)\<close> on a run of decimal digits.\<close>

definition digit_val :: "char \<Rightarrow> int" where
  "digit_val c = int (of_char c) - 48"

definition int_of_digits :: "string \<Rightarrow> int" where
  "int_of_digits ds = foldl (\<lambda>acc c. 10 * acc + digit_val c) 0 ds"

text \<open>
  \<open>urllib.parse.unquote\<close>: an escape \<open>%XY\<close> with two hexadecimal digits becomes the
  character with that code, every other character is kept.
\<close>

definition hex_val :: "char \<Rightarrow> nat option" where
  "hex_val c =
     (let n = (of_char c :: nat) in
      if 48 \<le> n \<and> n \<le> 57 then Some (n - 48)
      else if 65 \<le> n \<and> n \<le> 70 then Some (n - 55)
      else if 97 \<le> n \<and> n \<le> 102 then Some (n - 87)
      else None)"

fun unquote :: "string \<Rightarrow> string" where
  "unquote [] = []"
| "unquote [c] = [c]"
| "unquote [c, d] = [c, d]"
| "unquote (c # d # e # cs) =
     (if c = CHR ''%'' then
        (case (hex_val d, hex_val e) of
           (Some h, Some l) \<Rightarrow> char_of (16 * h + l) # unquote cs
         | _ \<Rightarrow> c # unquote (d # e # cs))
      else c # unquote (d # e # cs))"

section \<open>Pager Extractor\<close>

text \<open>
  The regular expression of \<open>_extract_pager\<close> and \<open>_extract_target_from_postback_list\<close>,
  \<^verbatim>\<open>__doPostBack\((?:'|\")([^'\"]+)(?:'|\"),(?:'|\")([^'\"]+)(?:'|\")\)\<close>:
  a quote, a non-empty run without quotes (group 1), a quote, a comma, a quote, a
  non-empty run without quotes (group 2), a quote and the closing parenthesis.  The
  runs are maximal, since the character after a run has to be a quote.
\<close>

definition is_quote :: "char \<Rightarrow> bool" where
  "is_quote c = (c = CHR 0x27 \<or> c = CHR 0x22)"

definition quoted_run :: "string \<Rightarrow> (string \<times> string) option" where
  "quoted_run s =
     (case s of
        [] \<Rightarrow> None
      | q # r \<Rightarrow>
          if \<not> is_quote q then None
          else (let g = takeWhile (\<lambda>c. \<not> is_quote c) r;
                    t = dropWhile (\<lambda>c. \<not> is_quote c) r
                in if g = [] then None
                   else (case t of [] \<Rightarrow> None | _ # u \<Rightarrow> Some (g, u))))"

definition match_postback :: "string \<Rightarrow> (string \<times> string) option" where
  "match_postback s =
     (if \<not> starts_with ''__doPostBack('' s then None
      else (case quoted_run (drop 13 s) of
              None \<Rightarrow> None
            | Some (g1, r) \<Rightarrow>
                (case r of
                   [] \<Rightarrow> None
                 | k # r' \<Rightarrow>
                     if k \<noteq> CHR '','' then None
                     else (case quoted_run r' of
                             None \<Rightarrow> None
                           | Some (g2, r'') \<Rightarrow>
                               (case r'' of
                                  [] \<Rightarrow> None
                                | p # _ \<Rightarrow> if p = CHR '')'' then Some (g1, g2) else None)))))"

text \<open>\<open>re.search\<close>: the leftmost position where the pattern matches.\<close>

fun search_postback :: "string \<Rightarrow> (string \<times> string) option" where
  "search_postback [] = match_postback []"
| "search_postback (c # cs) =
     (case match_postback (c # cs) of
        Some m \<Rightarrow> Some m
      | None \<Rightarrow> search_postback cs)"

text \<open>\<open>re.search(r"Page\$(\d+)", arg)\<close>, returning \<open>int(pm.group(1))\<close>.\<close>

definition match_page :: "string \<Rightarrow> int option" where
  "match_page s =
     (if starts_with ''Page$'' s \<and> takeWhile is_digit (drop 5 s) \<noteq> []
      then Some (int_of_digits (takeWhile is_digit (drop 5 s))) else None)"

fun search_page :: "string \<Rightarrow> int option" where
  "search_page [] = None"
| "search_page (c # cs) =
     (case match_page (c # cs) of
        Some n \<Rightarrow> Some n
      | None \<Rightarrow> search_page cs)"

text \<open>\<open>_extract_target_from_postback_list\<close>.\<close>

fun extract_target_from_postback_list :: "string list \<Rightarrow> string option" where
  "extract_target_from_postback_list [] = None"
| "extract_target_from_postback_list (href # hrefs) =
     (case search_postback href of
        Some (g1, g2) \<Rightarrow> Some (unquote g1)
      | None \<Rightarrow> extract_target_from_postback_list hrefs)"

record pager =
  target :: "string option"
  pages :: "int list"
  has_next :: bool

text \<open>
  The loop of \<open>_extract_pager\<close> over the links, threading the set \<open>pages\<close> (kept as a
  list of its elements) and the flag \<open>has_next\<close>.
\<close>

fun pager_loop :: "string list \<Rightarrow> int list \<times> bool \<Rightarrow> int list \<times> bool" where
  "pager_loop [] acc = acc"
| "pager_loop (href # hrefs) (ps, nxt) =
     (case search_postback href of
        None \<Rightarrow> pager_loop hrefs (ps, nxt)
      | Some (g1, g2) \<Rightarrow>
          (let arg = unquote g2;
               ps' = (case search_page arg of Some n \<Rightarrow> ps @ [n] | None \<Rightarrow> ps);
               nxt' = (if contains ''Page$Next'' arg then True else nxt)
           in pager_loop hrefs (ps', nxt')))"

text \<open>
  \<open>_extract_pager\<close>.  Its argument is the list of the \<open>href\<close> attributes of the links
  inside the table, in document order; the XPath keeps those that contain
  \<open>__doPostBack\<close>.
\<close>

definition extract_pager :: "string list \<Rightarrow> pager" where
  "extract_pager all_hrefs =
     (let hrefs = filter (contains ''__doPostBack'') all_hrefs;
          tgt = extract_target_from_postback_list hrefs;
          (ps, nxt) = pager_loop hrefs ([], False);
          ps' = (if ps = [] then [1] else ps)
      in \<lparr>target = tgt, pages = sort (remdups ps'), has_next = nxt\<rparr>)"

text \<open>
  What the links of a table encode, read off the links one by one: the groups of the
  links that match, the decoded arguments, and the page indices among them.
\<close>

definition postback_matches :: "string list \<Rightarrow> (string \<times> string) list" where
  "postback_matches all_hrefs =
     List.map_filter search_postback (filter (contains ''__doPostBack'') all_hrefs)"

definition postback_args :: "string list \<Rightarrow> string list" where
  "postback_args all_hrefs = map (\<lambda>(g1, g2). unquote g2) (postback_matches all_hrefs)"

definition found_pages :: "string list \<Rightarrow> int list" where
  "found_pages all_hrefs = List.map_filter search_page (postback_args all_hrefs)"

text \<open>The links of the end-to-end example: target \<open>pager1\<close>, arguments \<open>Page$2\<close> and \<open>Page$Next\<close>.\<close>

definition pager1_links :: "string list" where
  "pager1_links =
     [''javascript:__doPostBack('pager1','Page$2')'',
      ''javascript:__doPostBack('pager1','Page$Next')'']"

text \<open>The same links with the arguments spelled \<open>page:2\<close> and \<open>next\<close>.\<close>

definition spelled_links :: "string list" where
  "spelled_links =
     [''javascript:__doPostBack('pager1','page:2')'',
      ''javascript:__doPostBack('pager1','next')'']"

section \<open>Row Parser\<close>

text \<open>
  A table as the XPath queries of the spider see it: the text nodes below the \<open>th\<close>
  cells of the rows that have one, the rows that have a \<open>td\<close> cell (each row the list
  of its \<open>td\<close> cells, each cell the list of the text nodes below it), and the \<open>href\<close>
  attributes of the links inside the table, all in document order.
\<close>

record table =
  th_texts :: "string list"
  rows :: "string list list list"
  hrefs :: "string list"

text \<open>
  The XPath predicate \<open>text()[normalize-space()]\<close> keeps the text nodes that hold a
  character other than the four XML white-space characters.
\<close>

definition xpath_nonblank :: "string \<Rightarrow> bool" where
  "xpath_nonblank t = list_ex (\<lambda>c. \<not> xml_space c) t"

text \<open>\<open>" ".join(texts)\<close>.\<close>

fun join_sp :: "string list \<Rightarrow> string" where
  "join_sp [] = []"
| "join_sp [t] = t"
| "join_sp (t # u # ts) = t @ '' '' @ join_sp (u # ts)"

text \<open>Decimal notation of a number, for the f-string \<open>f"col_{i+1}"\<close>.\<close>

fun show_nat :: "nat \<Rightarrow> string" where
  "show_nat n =
     (if n < 10 then [char_of (48 + n)]
      else show_nat (n div 10) @ [char_of (48 + n mod 10)])"

declare show_nat.simps [simp del]

text \<open>
  The values of an item are strings and integers; an item is a Python dictionary,
  kept as an association list in insertion order: \<open>item[key] = val\<close> replaces the value
  of a key that is present and appends a new key otherwise.
\<close>

datatype pyval = PyStr string | PyInt int

type_synonym item = "(string \<times> pyval) list"

text \<open>Header resolution (\<open>_parse_table\<close>, up to the fallback on the first row).\<close>

definition th_headers :: "table \<Rightarrow> string list" where
  "th_headers tbl = map clean_header (filter xpath_nonblank (th_texts tbl))"

definition first_row_cand :: "table \<Rightarrow> string list" where
  "first_row_cand tbl =
     (case rows tbl of
        [] \<Rightarrow> []
      | r # _ \<Rightarrow> map clean_header (filter xpath_nonblank (concat r)))"

definition resolve_headers :: "table \<Rightarrow> string list" where
  "resolve_headers tbl =
     (let headers = th_headers tbl in
      if headers = [] then
        (let cand = first_row_cand tbl in
         if cand \<noteq> [] \<and> list_ex (\<lambda>c. list_ex is_alpha c) cand then cand else headers)
      else headers)"

text \<open>The flag \<open>drop_first\<close>.\<close>

definition first_cells :: "table \<Rightarrow> string list" where
  "first_cells tbl =
     (case rows tbl of
        [] \<Rightarrow> []
      | r # _ \<Rightarrow> map (\<lambda>td. clean_header (join_sp td)) r)"

definition drop_first :: "table \<Rightarrow> string list \<Rightarrow> bool" where
  "drop_first tbl headers =
     (headers \<noteq> [] \<and> rows tbl \<noteq> [] \<and>
      length (first_cells tbl) = length headers \<and>
      list_all (\<lambda>i. lower (first_cells tbl ! i) = lower (headers ! i)) [0..<length headers])"

text \<open>The loop \<open>for i, val in enumerate(cells)\<close> that fills the item.\<close>

definition cell_key :: "string list \<Rightarrow> nat \<Rightarrow> string" where
  "cell_key headers i =
     (if i < length headers \<and> headers ! i \<noteq> [] then headers ! i
      else ''col_'' @ show_nat (i + 1))"

fun fill_item :: "string list \<Rightarrow> nat \<Rightarrow> string list \<Rightarrow> item \<Rightarrow> item" where
  "fill_item headers i [] it = it"
| "fill_item headers i (val # vals) it =
     fill_item headers (i + 1) vals (AList.update (cell_key headers i) (PyStr val) it)"

definition row_cells :: "string list list \<Rightarrow> string list" where
  "row_cells r = map (\<lambda>t. norm (join_sp t)) r"

text \<open>\<open>any(cells)\<close>: some cell is a non-empty string.\<close>

definition any_cell :: "string list \<Rightarrow> bool" where
  "any_cell cells = list_ex (\<lambda>c. c \<noteq> []) cells"

text \<open>The body of the loop over the rows: \<open>None\<close> when the row is skipped.\<close>

definition row_item ::
  "string list \<Rightarrow> int \<Rightarrow> string \<Rightarrow> int \<Rightarrow> string \<Rightarrow> string list list \<Rightarrow> item option" where
  "row_item headers section_index section_title page_index url r =
     (let cells = row_cells r in
      if \<not> any_cell cells then None
      else Some
        (AList.update ''source_url'' (PyStr url)
          (AList.update ''page_index'' (PyInt page_index)
            (AList.update ''section_title'' (PyStr section_title)
              (AList.update ''section'' (PyInt section_index)
                (fill_item headers 0 cells []))))))"

text \<open>\<open>_parse_table\<close>: the list of the items it yields.\<close>

definition parse_table :: "table \<Rightarrow> int \<Rightarrow> string \<Rightarrow> int \<Rightarrow> string \<Rightarrow> item list" where
  "parse_table tbl section_index section_title page_index url =
     (let headers = resolve_headers tbl;
          start_idx = (if drop_first tbl headers then 1 else 0)
      in List.map_filter (row_item headers section_index section_title page_index url)
           (drop start_idx (rows tbl)))"

text \<open>The keys of an item: one per cell, and the four provenance keys.\<close>

definition provenance_keys :: "string list" where
  "provenance_keys = [''section'', ''section_title'', ''page_index'', ''source_url'']"

definition cell_keys :: "string list \<Rightarrow> nat \<Rightarrow> string list" where
  "cell_keys headers n = map (cell_key headers) [0..<n]"

text \<open>Tables and rows of the examples.\<close>

definition five_headers :: "string list" where
  "five_headers = [''Name'', ''Symbol'', ''Date'', ''Status'', ''Type'']"

definition seven_cell_row :: "string list list" where
  "seven_cell_row = [[''Acme''], [''ACM''], [''01-02-2024''], [''Open''], [''IPO''], [''12''], [''x'']]"

definition twin_header_table :: table where
  "twin_header_table =
     \<lparr>th_texts = [''Date'', ''Date''], rows = [[[''01-02-2024''], [''05-02-2024'']]], hrefs = []\<rparr>"

definition ragged_table :: table where
  "ragged_table =
     \<lparr>th_texts = [], rows = [[[''Name''], [''Age'']], [[''Bob''], [''30''], [''x'']]], hrefs = []\<rparr>"




text \<open>The number of the texts of a candidate header row that contain a letter.\<close>

definition letter_count :: "string list \<Rightarrow> nat" where
  "letter_count cand = length (filter (\<lambda>c. list_ex is_alpha c) cand)"


definition numeric_first_row_table :: table where
  "numeric_first_row_table =
     \<lparr>th_texts = [], rows = [[[''101''], [''2024'']], [[''102''], [''2025'']]], hrefs = []\<rparr>"

section \<open>Section Locator\<close>

text \<open>
  A response as the XPath queries of the spider see it: its URL, the elements of the
  document in document order (an element other than a table with its string value,
  or a table), and the hidden \<open>input\<close> elements that have a \<open>name\<close> attribute, each
  with its name and its \<open>value\<close> attribute if it has one.
\<close>

datatype node = Elem string | Tbl table

record response =
  url :: string
  nodes :: "node list"
  hidden_inputs :: "(string \<times> string option) list"

text \<open>
  The attributes of the spider object that the callbacks write: \<open>_pick_section_table\<close>
  sets \<open>_fallback_table_chosen\<close> on \<open>self\<close>; \<open>None\<close> stands for the attribute not being
  set (\<open>hasattr\<close> is false).
\<close>

record spider =
  fallback_table_chosen :: "table option"

definition new_spider :: spider where
  "new_spider = \<lparr>fallback_table_chosen = None\<rparr>"

text \<open>
  \<open>(//*[normalize-space(.)='title'])[1]/following::table[position()<=4]\<close>: the first
  four tables after the first element whose normalised string value is the title.
\<close>

fun tables_of :: "node list \<Rightarrow> table list" where
  "tables_of [] = []"
| "tables_of (Elem s # ns) = tables_of ns"
| "tables_of (Tbl t # ns) = t # tables_of ns"

fun following_tables :: "string \<Rightarrow> node list \<Rightarrow> table list" where
  "following_tables title [] = []"
| "following_tables title (Elem s # ns) =
     (if normalize_space s = title then tables_of ns else following_tables title ns)"
| "following_tables title (Tbl t # ns) = following_tables title ns"

definition candidates :: "response \<Rightarrow> string \<Rightarrow> table list" where
  "candidates resp section_title = take 4 (following_tables (norm section_title) (nodes resp))"

definition has_rows :: "table \<Rightarrow> bool" where
  "has_rows t = (rows t \<noteq> [])"

definition has_pager :: "table \<Rightarrow> bool" where
  "has_pager t = list_ex (contains ''__doPostBack'') (hrefs t)"

text \<open>
  The loop of \<open>_pick_section_table\<close> over the candidates and its final
  \<open>return getattr(self, "_fallback_table_chosen", None)\<close>.  The result is the table
  returned (\<open>None\<close> for Python's \<open>None\<close>) and the spider object after the call.
\<close>

fun pick_loop :: "table list \<Rightarrow> spider \<Rightarrow> table option \<times> spider" where
  "pick_loop [] sp = (fallback_table_chosen sp, sp)"
| "pick_loop (t # ts) sp =
     (if has_rows t then
        (if has_pager t then (Some t, sp)
         else if \<not> has_pager t \<and> fallback_table_chosen sp = None
           then pick_loop ts (sp\<lparr>fallback_table_chosen := Some t\<rparr>)
           else pick_loop ts sp)
      else pick_loop ts sp)"

definition pick_section_table :: "spider \<Rightarrow> response \<Rightarrow> string \<Rightarrow> table option \<times> spider" where
  "pick_section_table sp resp section_title = pick_loop (candidates resp section_title) sp"

text \<open>The section headings the spider looks for.\<close>

definition SECTION_TITLES :: "string list" where
  "SECTION_TITLES =
     [''1. Draft offer document under process at BSE:'',
      ''2. Draft Offer Document in relation to which clarifications are sought by the Exchange and respond BSE from Issuer is awaited:'',
      ''3. Document in relation to which in-principal Approval issued during the fortnight:'',
      ''4. List of documents which have been withdrawn/ returned by the Exchange during the fortnight.'']"

text \<open>
  A page of the run of the example: the heading of section 1 with a table that has
  rows and no pager, the heading of section 2 with another such table, and no heading
  of section 3.
\<close>

definition first_section_table :: table where
  "first_section_table = \<lparr>th_texts = [''Name''], rows = [[[''Acme'']]], hrefs = []\<rparr>"

definition second_section_table :: table where
  "second_section_table = \<lparr>th_texts = [''Name''], rows = [[[''Bolt'']]], hrefs = []\<rparr>"

definition two_section_page :: response where
  "two_section_page =
     \<lparr>url = ''https://host/status.aspx'',
      nodes = [Elem (SECTION_TITLES ! 0), Tbl first_section_table,
               Elem (SECTION_TITLES ! 1), Tbl second_section_table],
      hidden_inputs = []\<rparr>"

section \<open>Postback Request Builder and Traversal Controller\<close>

text \<open>The f-string \<open>f"Page${p}"\<close>.\<close>

definition show_int :: "int \<Rightarrow> string" where
  "show_int n = (if n < 0 then CHR ''-'' # show_nat (nat (- n)) else show_nat (nat n))"

definition page_argument :: "int \<Rightarrow> string" where
  "page_argument p = ''Page$'' @ show_int p"

text \<open>
  A request: the URL, the form data, the callback and its keyword arguments.  The set
  \<open>seen\<close> of a next-chain is one Python object handed from each \<open>Page$Next\<close> request
  to the next; its only reader and writer is the callback of the one request that
  holds it, so the request carries its value.
\<close>

datatype callback = Parse_section_page | Parse_section_next

record cb_kwargs =
  kw_section_index :: int
  kw_section_title :: string
  kw_gv_target :: string
  kw_page_index :: int
  kw_seen :: "int set option"

record request =
  req_url :: string
  formdata :: "(string \<times> string) list"
  callback :: callback
  kwargs :: cb_kwargs

datatype yielded = Item item | Req request

text \<open>\<open>_collect_aspnet_hidden_fields\<close>.\<close>

definition hidden_val :: "response \<Rightarrow> string \<Rightarrow> string" where
  "hidden_val resp name =
     (case List.map_filter (\<lambda>(n, v). if n = name then v else None) (hidden_inputs resp) of
        [] \<Rightarrow> []
      | v # _ \<Rightarrow> v)"

definition state_fields :: "string list" where
  "state_fields = [''__VIEWSTATE'', ''__VIEWSTATEGENERATOR'', ''__EVENTVALIDATION'']"

fun add_hidden :: "(string \<times> string option) list \<Rightarrow> (string \<times> string) list \<Rightarrow> (string \<times> string) list" where
  "add_hidden [] data = data"
| "add_hidden ((n, v) # inps) data =
     (if n \<in> set state_fields then add_hidden inps data
      else if n \<noteq> [] \<and> n \<notin> fst ` set data
        then add_hidden inps (AList.update n (case v of None \<Rightarrow> [] | Some x \<Rightarrow> x) data)
        else add_hidden inps data)"

definition collect_aspnet_hidden_fields :: "response \<Rightarrow> (string \<times> string) list" where
  "collect_aspnet_hidden_fields resp =
     add_hidden (hidden_inputs resp)
       [(''__VIEWSTATE'', hidden_val resp ''__VIEWSTATE''),
        (''__VIEWSTATEGENERATOR'', hidden_val resp ''__VIEWSTATEGENERATOR''),
        (''__EVENTVALIDATION'', hidden_val resp ''__EVENTVALIDATION'')]"

text \<open>\<open>_make_postback_request\<close>.\<close>

definition make_postback_request ::
  "response \<Rightarrow> string \<Rightarrow> string \<Rightarrow> callback \<Rightarrow> cb_kwargs \<Rightarrow> request" where
  "make_postback_request resp event_target event_argument cb kw =
     \<lparr>req_url = url resp,
      formdata = AList.update ''__EVENTARGUMENT'' event_argument
                   (AList.update ''__EVENTTARGET'' event_target
                      (collect_aspnet_hidden_fields resp)),
      callback = cb,
      kwargs = kw\<rparr>"

text \<open>The request for one numeric page, as the three callbacks build it.\<close>

definition page_request :: "response \<Rightarrow> int \<Rightarrow> string \<Rightarrow> string \<Rightarrow> int \<Rightarrow> request" where
  "page_request resp sec title tgt p =
     make_postback_request resp tgt (page_argument p) Parse_section_page
       \<lparr>kw_section_index = sec, kw_section_title = title, kw_gv_target = tgt,
        kw_page_index = p, kw_seen = None\<rparr>"

definition next_request :: "response \<Rightarrow> int \<Rightarrow> string \<Rightarrow> string \<Rightarrow> int \<Rightarrow> int set \<Rightarrow> request" where
  "next_request resp sec title tgt p seen =
     make_postback_request resp tgt ''Page$Next'' Parse_section_next
       \<lparr>kw_section_index = sec, kw_section_title = title, kw_gv_target = tgt,
        kw_page_index = p, kw_seen = Some seen\<rparr>"

text \<open>
  \<open>parse\<close>: the body of the loop over the sections, then the loop.  A callback
  returns what it yields, in order, and the spider object after the call.
\<close>

definition parse_section :: "spider \<Rightarrow> response \<Rightarrow> int \<Rightarrow> string \<Rightarrow> yielded list \<times> spider" where
  "parse_section sp resp sec title =
     (case pick_section_table sp resp title of
        (None, sp') \<Rightarrow> ([], sp')
      | (Some tbl, sp') \<Rightarrow>
          (let items = map Item (parse_table tbl sec title 1 (url resp));
               pager = extract_pager (hrefs tbl)
           in case target pager of
                None \<Rightarrow> (items, sp')
              | Some tgt \<Rightarrow>
                  if tgt = [] then (items, sp')
                  else (items
                        @ map (\<lambda>p. Req (page_request resp sec title tgt p))
                            (filter (\<lambda>p. p > 1) (pages pager))
                        @ (if has_next pager
                           then [Req (next_request resp sec title tgt 2 {1})] else []),
                        sp')))"

fun parse_sections :: "spider \<Rightarrow> response \<Rightarrow> (int \<times> string) list \<Rightarrow> yielded list \<times> spider" where
  "parse_sections sp resp [] = ([], sp)"
| "parse_sections sp resp ((sec, title) # rest) =
     (let (outs, sp') = parse_section sp resp sec title;
          (outs', sp'') = parse_sections sp' resp rest
      in (outs @ outs', sp''))"

definition parse :: "spider \<Rightarrow> response \<Rightarrow> yielded list \<times> spider" where
  "parse sp resp = parse_sections sp resp (zip [1, 2, 3, 4] SECTION_TITLES)"

text \<open>\<open>_parse_section_page\<close>.\<close>

definition parse_section_page ::
  "spider \<Rightarrow> response \<Rightarrow> int \<Rightarrow> string \<Rightarrow> string \<Rightarrow> int \<Rightarrow> yielded list \<times> spider" where
  "parse_section_page sp resp sec title tgt page =
     (case pick_section_table sp resp title of
        (None, sp') \<Rightarrow> ([], sp')
      | (Some tbl, sp') \<Rightarrow>
          (let items = map Item (parse_table tbl sec title page (url resp));
               pager = extract_pager (hrefs tbl)
           in (items
               @ map (\<lambda>p. Req (page_request resp sec title tgt p))
                   (filter (\<lambda>p. p > page) (pages pager)),
               sp')))"

text \<open>
  \<open>_parse_section_next\<close>: the loop over the visible pages, which adds each page that is
  not in \<open>seen\<close> to it and requests it unless it is the current page; then the next
  \<open>Page$Next\<close> request, which carries \<open>seen\<close> on.
\<close>

fun next_loop :: "response \<Rightarrow> int \<Rightarrow> string \<Rightarrow> string \<Rightarrow> int \<Rightarrow> int list \<Rightarrow> int set
    \<Rightarrow> yielded list \<times> int set" where
  "next_loop resp sec title tgt page [] seen = ([], seen)"
| "next_loop resp sec title tgt page (p # ps) seen =
     (if p \<notin> seen then
        (let (outs, seen') = next_loop resp sec title tgt page ps (insert p seen)
         in ((if p \<noteq> page then [Req (page_request resp sec title tgt p)] else []) @ outs,
             seen'))
      else next_loop resp sec title tgt page ps seen)"

definition parse_section_next ::
  "spider \<Rightarrow> response \<Rightarrow> int \<Rightarrow> string \<Rightarrow> string \<Rightarrow> int \<Rightarrow> int set \<Rightarrow> yielded list \<times> spider" where
  "parse_section_next sp resp sec title tgt page seen =
     (case pick_section_table sp resp title of
        (None, sp') \<Rightarrow> ([], sp')
      | (Some tbl, sp') \<Rightarrow>
          (let items = map Item (parse_table tbl sec title page (url resp));
               pager = extract_pager (hrefs tbl);
               (reqs, seen') = next_loop resp sec title tgt page (pages pager) seen
           in (items @ reqs
               @ (if has_next pager
                  then [Req (next_request resp sec title tgt (page + 1)
                               (if page + 1 \<notin> seen' then insert (page + 1) seen' else seen'))]
                  else []),
               sp')))"

text \<open>The callback a request names, applied to the response to that request.\<close>

definition run_callback :: "spider \<Rightarrow> request \<Rightarrow> response \<Rightarrow> yielded list \<times> spider" where
  "run_callback sp rq resp =
     (let kw = kwargs rq in
      case callback rq of
        Parse_section_page \<Rightarrow>
          parse_section_page sp resp (kw_section_index kw) (kw_section_title kw)
            (kw_gv_target kw) (kw_page_index kw)
      | Parse_section_next \<Rightarrow>
          parse_section_next sp resp (kw_section_index kw) (kw_section_title kw)
            (kw_gv_target kw) (kw_page_index kw)
            (case kw_seen kw of None \<Rightarrow> {} | Some s \<Rightarrow> s))"

text \<open>
  The requests among what a callback yields, each as its callback, section index,
  page index and event argument.
\<close>

fun requests_of :: "yielded list \<Rightarrow> request list" where
  "requests_of [] = []"
| "requests_of (Item it # outs) = requests_of outs"
| "requests_of (Req rq # outs) = rq # requests_of outs"

definition event_argument_of :: "request \<Rightarrow> string" where
  "event_argument_of rq = (case map_of (formdata rq) ''__EVENTARGUMENT'' of None \<Rightarrow> [] | Some a \<Rightarrow> a)"

definition issued :: "yielded list \<Rightarrow> (callback \<times> int \<times> int \<times> string) list" where
  "issued outs =
     map (\<lambda>rq. (callback rq, kw_section_index (kwargs rq), kw_page_index (kwargs rq),
                 event_argument_of rq))
       (requests_of outs)"

text \<open>
  A section of three pages, as a grid pager renders it: page 1 links to pages 2 and 3,
  page 2 links to pages 1 and 3.
\<close>

definition pager_link :: "string \<Rightarrow> string" where
  "pager_link arg = ''javascript:__doPostBack('' @ [CHR 0x27] @ ''gv'' @ [CHR 0x27] @ '',''
                     @ [CHR 0x27] @ arg @ [CHR 0x27] @ '')''"

definition page_one :: response where
  "page_one =
     \<lparr>url = ''https://host/status.aspx'',
      nodes = [Elem (SECTION_TITLES ! 0),
               Tbl \<lparr>th_texts = [''Name''], rows = [[[''Acme'']]],
                    hrefs = [pager_link ''Page$2'', pager_link ''Page$3'']\<rparr>],
      hidden_inputs = [(''__VIEWSTATE'', Some ''s1'')]\<rparr>"

definition page_two :: response where
  "page_two =
     \<lparr>url = ''https://host/status.aspx'',
      nodes = [Elem (SECTION_TITLES ! 0),
               Tbl \<lparr>th_texts = [''Name''], rows = [[[''Bolt'']]],
                    hrefs = [pager_link ''Page$1'', pager_link ''Page$3'']\<rparr>],
      hidden_inputs = [(''__VIEWSTATE'', Some ''s2'')]\<rparr>"

text \<open>
  A next-chain: the callback \<open>_parse_section_next\<close> run on the response to the first
  \<open>Page$Next\<close> request, then on the response to the \<open>Page$Next\<close> request it issued, and
  so on along the given responses; the result is the list of the requests for numeric
  pages that the callbacks of the chain issue, in order.
\<close>

definition numeric_requests :: "yielded list \<Rightarrow> request list" where
  "numeric_requests outs = filter (\<lambda>rq. callback rq = Parse_section_page) (requests_of outs)"

definition chain_requests :: "yielded list \<Rightarrow> request list" where
  "chain_requests outs = filter (\<lambda>rq. callback rq = Parse_section_next) (requests_of outs)"

definition page_of :: "request \<Rightarrow> int" where
  "page_of rq = kw_page_index (kwargs rq)"

definition seen_of :: "request \<Rightarrow> int set" where
  "seen_of rq = (case kw_seen (kwargs rq) of None \<Rightarrow> {} | Some s \<Rightarrow> s)"

fun next_chain ::
  "spider \<Rightarrow> response list \<Rightarrow> int \<Rightarrow> string \<Rightarrow> string \<Rightarrow> int \<Rightarrow> int set \<Rightarrow> request list" where
  "next_chain sp [] sec title tgt page seen = []"
| "next_chain sp (resp # resps) sec title tgt page seen =
     (case parse_section_next sp resp sec title tgt page seen of
        (outs, sp') \<Rightarrow>
          numeric_requests outs
          @ (case chain_requests outs of
               [] \<Rightarrow> []
             | nx # _ \<Rightarrow> next_chain sp' resps sec title tgt (page_of nx) (seen_of nx)))"

text \<open>A next-chain over three pages on which pages 3 and 4 are visible.\<close>

definition page_with_next :: "string list \<Rightarrow> response" where
  "page_with_next args =
     \<lparr>url = ''https://host/status.aspx'',
      nodes = [Elem (SECTION_TITLES ! 0),
               Tbl \<lparr>th_texts = [''Name''], rows = [[[''Acme'']]],
                    hrefs = map pager_link args\<rparr>],
      hidden_inputs = []\<rparr>"

section \<open>SHA-1, for the content hash of a URL\<close>
















section \<open>Persistence Layer\<close>

subsection \<open>Library calls and helper functions\<close>

text \<open>
  The exceptions of the persistence code are values: a call that raises returns
  \<open>Inl\<close> of the exception.
\<close>

datatype py_error = ValueError | IntegrityError | DataError | MultipleResultsFound

record date =
  year :: nat
  month :: nat
  day :: nat

text \<open>
  The calls into Python's library that the module makes on text it does not control
  are parameters of the model: \<open>datetime.strptime(s, fmt).date()\<close>,
  \<open>datetime.fromisoformat(s).date()\<close>, \<open>float(t)\<close> with the truth value of a float,
  \<open>json.loads\<close> on the \<open>files\<close> entry, and \<open>urlparse(url).path\<close> on the URL of a request
  that Scrapy has accepted.  The type \<open>'f\<close> stands for Python's floats.
\<close>

record file_info =
  file_url :: "string option"
  file_path_key :: "string option"

record 'f pylib =
  strptime :: "string \<Rightarrow> string \<Rightarrow> py_error + date"
  fromisoformat :: "string \<Rightarrow> py_error + date"
  float_of :: "string \<Rightarrow> py_error + 'f"
  float_truthy :: "'f \<Rightarrow> bool"
  json_loads :: "string \<Rightarrow> py_error + file_info list"
  url_path :: "string \<Rightarrow> string"

text \<open>\<open>x or d\<close> on an optional string: \<open>None\<close> and the empty string are false.\<close>

definition str_truthy :: "string option \<Rightarrow> bool" where
  "str_truthy s = (case s of None \<Rightarrow> False | Some t \<Rightarrow> t \<noteq> [])"




text \<open>\<open>to_iso_date\<close>: the loop over the formats, then \<open>fromisoformat\<close>.\<close>

definition DATE_FORMATS :: "string list" where
  "DATE_FORMATS = [''%Y-%m-%d'', ''%d-%m-%Y'', ''%d/%m/%Y'', ''%d %b %Y'', ''%d %B %Y'']"

fun try_formats :: "'f pylib \<Rightarrow> string \<Rightarrow> string list \<Rightarrow> date option" where
  "try_formats lib s [] = None"
| "try_formats lib s (fmt # fmts) =
     (case strptime lib s fmt of
        Inr d \<Rightarrow> Some d
      | Inl e \<Rightarrow> try_formats lib s fmts)"

definition to_iso_date :: "'f pylib \<Rightarrow> string option \<Rightarrow> py_error + date option" where
  "to_iso_date lib s =
     (if \<not> str_truthy s then Inr None
      else (let t = strip (the s) in
            case try_formats lib t DATE_FORMATS of
              Some d \<Rightarrow> Inr (Some d)
            | None \<Rightarrow>
                (case fromisoformat lib t of
                   Inr d \<Rightarrow> Inr (Some d)
                 | Inl e \<Rightarrow> Inr None)))"

text \<open>\<open>coerce_float\<close>.\<close>

definition coerce_float :: "'f pylib \<Rightarrow> string option \<Rightarrow> 'f option" where
  "coerce_float lib s =
     (case s of
        None \<Rightarrow> None
      | Some u \<Rightarrow>
          (let t = filter (\<lambda>c. is_digit c \<or> c = CHR ''.'' \<or> c = CHR ''-'') u in
           if t = [] then None
           else (case float_of lib t of Inr x \<Rightarrow> Some x | Inl e \<Rightarrow> None)))"



subsection \<open>The path of a downloaded file\<close>








subsection \<open>The table of issues and the upsert\<close>

text \<open>The payload column: \<open>details\<close>, \<open>pdfs\<close>, \<open>links\<close> and \<open>files\<close>.\<close>

record link =
  link_label :: "string option"
  link_url :: "string option"

record pdf_entry =
  pdf_label :: "string option"
  pdf_url :: "string option"
  cloud_key :: "string option"
  cloud_url :: "string option"

datatype files_value = Files_list "file_info list" | Files_str string

record payload =
  details :: "(string \<times> string) list"
  pdfs :: "pdf_entry list"
  links :: "link list"
  files :: files_value

text \<open>
  A row of the table \<open>issues\<close>, the class \<open>IssueCompact\<close>; \<open>row_id\<close> is its column
  \<open>id\<close>, and \<open>None\<close> is SQL's \<open>NULL\<close>.
\<close>

record 'f IssueCompact =
  row_id :: "nat option"
  security_name :: "string option"
  exchange_platform :: "string option"
  type_of_issue :: "string option"
  type_of_issue_long :: "string option"
  issue_status :: "string option"
  security_type :: "string option"
  start_date :: "date option"
  end_date :: "date option"
  offer_price_raw :: "string option"
  price_min :: "'f option"
  price_max :: "'f option"
  face_value :: "string option"
  list_url :: "string option"
  detail_url :: "string option"
  payload :: payload

text \<open>
  The item as \<open>process_item\<close> reads it with \<open>ad.get\<close>; \<open>None\<close> stands for a key that is
  absent or holds \<open>None\<close>.
\<close>

record issue_item =
  i_security_name :: "string option"
  i_exchange_platform :: "string option"
  i_type_of_issue :: "string option"
  i_type_of_issue_long :: "string option"
  i_issue_status :: "string option"
  i_security_type :: "string option"
  i_start_date :: "string option"
  i_end_date :: "string option"
  i_offer_price :: "string option"
  i_price_min :: "string option"
  i_price_max :: "string option"
  i_face_value :: "string option"
  i_list_url :: "string option"
  i_detail_url :: "string option"
  i_details :: "(string \<times> string) list option"
  i_pdf_links :: "link list option"
  i_links :: "link list option"
  i_files :: "files_value option"

record pipeline =
  r2_public_baseurl :: string

text \<open>\<open>_url_to_key\<close>: the dictionary from the URL of a downloaded file to its key.\<close>

definition files_or_empty :: "files_value option \<Rightarrow> files_value" where
  "files_or_empty v =
     (case v of
        None \<Rightarrow> Files_list []
      | Some (Files_list fs) \<Rightarrow> Files_list fs
      | Some (Files_str s) \<Rightarrow> if s = [] then Files_list [] else Files_str s)"

definition files_info :: "'f pylib \<Rightarrow> files_value \<Rightarrow> file_info list" where
  "files_info lib v =
     (case v of
        Files_list fs \<Rightarrow> fs
      | Files_str s \<Rightarrow> (case json_loads lib s of Inr fs \<Rightarrow> fs | Inl e \<Rightarrow> []))"

fun url_key_loop :: "file_info list \<Rightarrow> (string \<times> string) list \<Rightarrow> (string \<times> string) list" where
  "url_key_loop [] m = m"
| "url_key_loop (f # fs) m =
     (if str_truthy (file_url f) \<and> str_truthy (file_path_key f)
      then url_key_loop fs (AList.update (the (file_url f)) (the (file_path_key f)) m)
      else url_key_loop fs m)"

definition url_to_key :: "'f pylib \<Rightarrow> issue_item \<Rightarrow> (string \<times> string) list" where
  "url_to_key lib item = url_key_loop (files_info lib (files_or_empty (i_files item))) []"

text \<open>The list \<open>pdfs\<close> and the payload.\<close>

definition pdf_of :: "pipeline \<Rightarrow> (string \<times> string) list \<Rightarrow> link \<Rightarrow> pdf_entry" where
  "pdf_of self m d =
     (let u = link_url d;
          key = (case u of None \<Rightarrow> None | Some x \<Rightarrow> map_of m x)
      in \<lparr>pdf_label = link_label d, pdf_url = u, cloud_key = key,
          cloud_url = (if str_truthy key \<and> r2_public_baseurl self \<noteq> []
                       then Some (r2_public_baseurl self @ ''/'' @ the key) else None)\<rparr>)"

definition list_or_empty :: "'a list option \<Rightarrow> 'a list" where
  "list_or_empty v = (case v of None \<Rightarrow> [] | Some xs \<Rightarrow> xs)"

definition build_payload :: "pipeline \<Rightarrow> 'f pylib \<Rightarrow> issue_item \<Rightarrow> payload" where
  "build_payload self lib item =
     \<lparr>details = list_or_empty (i_details item),
      pdfs = map (pdf_of self (url_to_key lib item)) (list_or_empty (i_pdf_links item)),
      links = list_or_empty (i_links item),
      files = files_or_empty (i_files item)\<rparr>"

text \<open>The object \<open>obj\<close> that \<open>process_item\<close> builds; it has no \<open>id\<close> yet.\<close>

definition new_issue :: "pipeline \<Rightarrow> 'f pylib \<Rightarrow> issue_item \<Rightarrow> py_error + 'f IssueCompact" where
  "new_issue self lib item =
     (case to_iso_date lib (i_start_date item) of
        Inl e \<Rightarrow> Inl e
      | Inr sd \<Rightarrow>
          (case to_iso_date lib (i_end_date item) of
             Inl e \<Rightarrow> Inl e
           | Inr ed \<Rightarrow>
               Inr \<lparr>row_id = None,
                    security_name = i_security_name item,
                    exchange_platform = i_exchange_platform item,
                    type_of_issue = i_type_of_issue item,
                    type_of_issue_long = i_type_of_issue_long item,
                    issue_status = i_issue_status item,
                    security_type = i_security_type item,
                    start_date = sd,
                    end_date = ed,
                    offer_price_raw = i_offer_price item,
                    price_min = coerce_float lib (i_price_min item),
                    price_max = coerce_float lib (i_price_max item),
                    face_value = i_face_value item,
                    list_url = i_list_url item,
                    detail_url = i_detail_url item,
                    payload = build_payload self lib item\<rparr>))"

text \<open>
  The database: the rows of the table and the next value of the \<open>id\<close> sequence.  A
  transaction that fails is rolled back and leaves the database as it was.
\<close>

record 'f db =
  issues :: "'f IssueCompact list"
  next_id :: nat

definition empty_db :: "'f db" where
  "empty_db = \<lparr>issues = [], next_id = 1\<rparr>"

text \<open>
  A filter \<open>column == value\<close> of the ORM: \<open>IS NULL\<close> when the value is \<open>None\<close>, the SQL
  comparison with the value otherwise, which no \<open>NULL\<close> satisfies.
\<close>

definition sql_eq :: "'a option \<Rightarrow> 'a option \<Rightarrow> bool" where
  "sql_eq col v = (case v of None \<Rightarrow> col = None | Some x \<Rightarrow> col = Some x)"

definition identity_filter :: "'f IssueCompact \<Rightarrow> 'f IssueCompact \<Rightarrow> bool" where
  "identity_filter obj r =
     (sql_eq (security_name r) (security_name obj) \<and>
      sql_eq (start_date r) (start_date obj) \<and>
      sql_eq (end_date r) (end_date obj) \<and>
      sql_eq (detail_url r) (detail_url obj))"

definition one_or_none :: "'a list \<Rightarrow> py_error + 'a option" where
  "one_or_none xs =
     (case xs of
        [] \<Rightarrow> Inr None
      | [x] \<Rightarrow> Inr (Some x)
      | _ \<Rightarrow> Inl MultipleResultsFound)"

text \<open>
  What the table accepts at commit: \<open>security_name\<close> is \<open>NOT NULL\<close>, and a string
  column holds at most as many characters as its declared width.  A value beyond the
  width is rejected; a database that cuts a value whose excess is nothing but spaces
  is not modelled, and the statements below are about values within the widths.
\<close>

definition fits :: "nat \<Rightarrow> string option \<Rightarrow> bool" where
  "fits n v = (case v of None \<Rightarrow> True | Some s \<Rightarrow> length s \<le> n)"

definition widths_ok :: "'f IssueCompact \<Rightarrow> bool" where
  "widths_ok r =
     (fits 512 (security_name r) \<and> fits 128 (exchange_platform r) \<and>
      fits 64 (type_of_issue r) \<and> fits 128 (type_of_issue_long r) \<and>
      fits 128 (issue_status r) \<and> fits 64 (security_type r) \<and>
      fits 64 (offer_price_raw r) \<and> fits 64 (face_value r))"

definition column_error :: "'f IssueCompact \<Rightarrow> py_error option" where
  "column_error r =
     (if security_name r = None then Some IntegrityError
      else if \<not> widths_ok r then Some DataError
      else None)"

text \<open>
  The constraint \<open>uq_issue_identity\<close>: two rows may not agree on the four identity
  columns when none of the four is \<open>NULL\<close>.
\<close>

definition identity_key ::
  "'f IssueCompact \<Rightarrow> string option \<times> date option \<times> date option \<times> string option" where
  "identity_key r = (security_name r, start_date r, end_date r, detail_url r)"

definition unique_violation :: "'f IssueCompact list \<Rightarrow> 'f IssueCompact \<Rightarrow> bool" where
  "unique_violation rs obj =
     (security_name obj \<noteq> None \<and> start_date obj \<noteq> None \<and> end_date obj \<noteq> None \<and>
      detail_url obj \<noteq> None \<and> list_ex (\<lambda>r. identity_key r = identity_key obj) rs)"

text \<open>\<open>sess.add(obj)\<close> and \<open>sess.commit()\<close>.\<close>

definition add_commit :: "'f db \<Rightarrow> 'f IssueCompact \<Rightarrow> py_error + 'f db" where
  "add_commit d obj =
     (case column_error obj of
        Some e \<Rightarrow> Inl e
      | None \<Rightarrow>
          if unique_violation (issues d) obj then Inl IntegrityError
          else Inr \<lparr>issues = issues d @ [obj\<lparr>row_id := Some (next_id d)\<rparr>],
                    next_id = next_id d + 1\<rparr>)"

text \<open>
  The branch \<open>if existing\<close>: the loop over the ten fields, where \<open>if val\<close> holds for a
  non-empty string and for a float that is true, and the assignment of the payload.
\<close>

definition set_str :: "string option \<Rightarrow> string option \<Rightarrow> string option" where
  "set_str old val = (if str_truthy val then val else old)"

definition set_float :: "'f pylib \<Rightarrow> 'f option \<Rightarrow> 'f option \<Rightarrow> 'f option" where
  "set_float lib old val =
     (case val of None \<Rightarrow> old | Some x \<Rightarrow> if float_truthy lib x then Some x else old)"

definition overwrite :: "'f pylib \<Rightarrow> 'f IssueCompact \<Rightarrow> 'f IssueCompact \<Rightarrow> 'f IssueCompact" where
  "overwrite lib existing obj =
     existing
       \<lparr>exchange_platform := set_str (exchange_platform existing) (exchange_platform obj),
        type_of_issue := set_str (type_of_issue existing) (type_of_issue obj),
        type_of_issue_long := set_str (type_of_issue_long existing) (type_of_issue_long obj),
        issue_status := set_str (issue_status existing) (issue_status obj),
        security_type := set_str (security_type existing) (security_type obj),
        offer_price_raw := set_str (offer_price_raw existing) (offer_price_raw obj),
        price_min := set_float lib (price_min existing) (price_min obj),
        price_max := set_float lib (price_max existing) (price_max obj),
        face_value := set_str (face_value existing) (face_value obj),
        list_url := set_str (list_url existing) (list_url obj),
        payload := payload obj\<rparr>"

text \<open>\<open>sess.commit()\<close> after the assignments: the row with the \<open>id\<close> of \<open>existing\<close> is written.\<close>

definition update_commit :: "'f db \<Rightarrow> 'f IssueCompact \<Rightarrow> py_error + 'f db" where
  "update_commit d changed =
     (case column_error changed of
        Some e \<Rightarrow> Inl e
      | None \<Rightarrow>
          Inr (d\<lparr>issues := map (\<lambda>r. if row_id r = row_id changed then changed else r)
                              (issues d)\<rparr>))"

text \<open>
  \<open>IssuesCompactDBPipeline.process_item\<close>.  An exception anywhere in the \<open>try\<close> block is
  re-raised after the rollback.
\<close>

definition process_item :: "pipeline \<Rightarrow> 'f pylib \<Rightarrow> issue_item \<Rightarrow> 'f db \<Rightarrow> py_error + 'f db" where
  "process_item self lib item d =
     (case new_issue self lib item of
        Inl e \<Rightarrow> Inl e
      | Inr obj \<Rightarrow>
          (case one_or_none (filter (identity_filter obj) (issues d)) of
             Inl e \<Rightarrow> Inl e
           | Inr None \<Rightarrow> add_commit d obj
           | Inr (Some existing) \<Rightarrow> update_commit d (overwrite lib existing obj)))"

subsection \<open>Notions for the statements, and the library on the text of the examples\<close>

text \<open>The date that \<open>to_iso_date\<close> returns, \<open>None\<close> for Python's \<open>None\<close>.\<close>

definition iso_date_of :: "'f pylib \<Rightarrow> string option \<Rightarrow> date option" where
  "iso_date_of lib s = (case to_iso_date lib s of Inr d \<Rightarrow> d | Inl e \<Rightarrow> None)"



text \<open>
  A library for the examples.  It answers as Python does on the texts the examples
  use: the dates \<open>2024-01-15\<close> and \<open>15-01-2024\<close> parse in the first and in the second
  format, \<open>2024-01-15T09:30:00\<close> only with \<open>fromisoformat\<close>, \<open>TBA\<close> not at all; a run of digits is a float, here an integer, that is
  true unless it is zero; the path of a URL starts after its host and ends before the
  query.
\<close>

definition demo_strptime :: "string \<Rightarrow> string \<Rightarrow> py_error + date" where
  "demo_strptime s fmt =
     (if fmt = ''%Y-%m-%d'' \<and> s = ''2024-01-15'' then Inr \<lparr>year = 2024, month = 1, day = 15\<rparr>
      else if fmt = ''%d-%m-%Y'' \<and> s = ''15-01-2024'' then Inr \<lparr>year = 2024, month = 1, day = 15\<rparr>
      else Inl ValueError)"

definition demo_fromisoformat :: "string \<Rightarrow> py_error + date" where
  "demo_fromisoformat s =
     (if s = ''2024-01-15'' \<or> s = ''2024-01-15T09:30:00''
      then Inr \<lparr>year = 2024, month = 1, day = 15\<rparr> else Inl ValueError)"

definition demo_float_of :: "string \<Rightarrow> py_error + int" where
  "demo_float_of t = (if t \<noteq> [] \<and> list_all is_digit t then Inr (int_of_digits t) else Inl ValueError)"

fun after_scheme :: "string \<Rightarrow> string" where
  "after_scheme (a # b # c # s) =
     (if a = CHR '':'' \<and> b = CHR ''/'' \<and> c = CHR ''/'' then s else after_scheme (b # c # s))"
| "after_scheme s = []"

definition demo_url_path :: "string \<Rightarrow> string" where
  "demo_url_path u =
     takeWhile (\<lambda>c. c \<noteq> CHR ''?'' \<and> c \<noteq> CHR ''#'')
       (dropWhile (\<lambda>c. c \<noteq> CHR ''/'') (after_scheme u))"

definition demo_lib :: "int pylib" where
  "demo_lib =
     \<lparr>strptime = demo_strptime, fromisoformat = demo_fromisoformat,
      float_of = demo_float_of, float_truthy = (\<lambda>x. x \<noteq> 0),
      json_loads = (\<lambda>s. Inl ValueError), url_path = demo_url_path\<rparr>"



subsection \<open>Notions for the statements about the upsert\<close>

text \<open>The object that \<open>process_item\<close> builds from an item, as a value.\<close>

definition issue_of :: "pipeline \<Rightarrow> 'f pylib \<Rightarrow> issue_item \<Rightarrow> 'f IssueCompact" where
  "issue_of self lib item =
     \<lparr>row_id = None,
      security_name = i_security_name item,
      exchange_platform = i_exchange_platform item,
      type_of_issue = i_type_of_issue item,
      type_of_issue_long = i_type_of_issue_long item,
      issue_status = i_issue_status item,
      security_type = i_security_type item,
      start_date = iso_date_of lib (i_start_date item),
      end_date = iso_date_of lib (i_end_date item),
      offer_price_raw = i_offer_price item,
      price_min = coerce_float lib (i_price_min item),
      price_max = coerce_float lib (i_price_max item),
      face_value = i_face_value item,
      list_url = i_list_url item,
      detail_url = i_detail_url item,
      payload = build_payload self lib item\<rparr>"

text \<open>The stored rows with the identity key of a given row.\<close>

definition rows_with_identity :: "'f IssueCompact \<Rightarrow> 'f db \<Rightarrow> 'f IssueCompact list" where
  "rows_with_identity obj d = filter (\<lambda>r. identity_key r = identity_key obj) (issues d)"

text \<open>
  A well-formed database: every row has an \<open>id\<close> below the next value of the
  sequence, the \<open>id\<close>s are pairwise distinct (the primary key), every row is one the
  table accepts, and no two rows have the same identity key.
\<close>

definition id_below :: "nat \<Rightarrow> 'f IssueCompact \<Rightarrow> bool" where
  "id_below n r = (case row_id r of None \<Rightarrow> False | Some i \<Rightarrow> i < n)"

definition db_ok :: "'f db \<Rightarrow> bool" where
  "db_ok d =
     (list_all (id_below (next_id d)) (issues d) \<and>
      distinct (map row_id (issues d)) \<and>
      list_all (\<lambda>r. column_error r = None) (issues d) \<and>
      distinct (map identity_key (issues d)))"

text \<open>Items of the examples.\<close>

definition blank_item :: issue_item where
  "blank_item =
     \<lparr>i_security_name = None, i_exchange_platform = None, i_type_of_issue = None,
      i_type_of_issue_long = None, i_issue_status = None, i_security_type = None,
      i_start_date = None, i_end_date = None, i_offer_price = None, i_price_min = None,
      i_price_max = None, i_face_value = None, i_list_url = None, i_detail_url = None,
      i_details = None, i_pdf_links = None, i_links = None, i_files = None\<rparr>"

text \<open>An issue whose dates are not dates and that has no detail page.\<close>

definition undated_item :: issue_item where
  "undated_item =
     blank_item
       \<lparr>i_security_name := Some ''Acme Ltd'', i_exchange_platform := Some ''BSE SME'',
        i_start_date := Some ''TBA'', i_end_date := Some '''',
        i_offer_price := Some ''100'', i_price_min := Some ''100'', i_price_max := Some ''100'',
        i_issue_status := Some ''Forthcoming'',
        i_details := Some [(''Issue Size'', ''10 Cr'')]\<rparr>"

text \<open>The same issue scraped again: an empty status, a price of zero, a new face value.\<close>

definition rescraped_item :: issue_item where
  "rescraped_item =
     undated_item
       \<lparr>i_issue_status := Some '''', i_exchange_platform := None, i_price_min := Some ''0'',
        i_face_value := Some ''10'',
        i_details := Some [(''Issue Size'', ''12 Cr'')],
        i_files := Some (Files_list
                     [\<lparr>file_url = Some ''https://host.example/a.pdf'',
                       file_path_key = Some ''issues/Acme-Ltd/undated/document_0a1b2c.pdf''\<rparr>]),
        i_pdf_links := Some [\<lparr>link_label = Some ''RHP'', link_url = Some ''https://host.example/a.pdf''\<rparr>]\<rparr>"

definition nameless_item :: issue_item where
  "nameless_item = undated_item\<lparr>i_security_name := None\<rparr>"

definition r2 :: pipeline where
  "r2 = \<lparr>r2_public_baseurl = ''https://cdn.example''\<rparr>"

text \<open>
  The database after the first scrape of the undated issue, and after the second
  scrape of it.
\<close>

definition stored_row :: "int IssueCompact" where
  "stored_row =
     \<lparr>row_id = Some 1, security_name = Some ''Acme Ltd'', exchange_platform = Some ''BSE SME'',
      type_of_issue = None, type_of_issue_long = None, issue_status = Some ''Forthcoming'',
      security_type = None, start_date = None, end_date = None,
      offer_price_raw = Some ''100'', price_min = Some 100, price_max = Some 100,
      face_value = None, list_url = None, detail_url = None,
      payload = \<lparr>details = [(''Issue Size'', ''10 Cr'')], pdfs = [], links = [],
                 files = Files_list []\<rparr>\<rparr>"

definition other_row :: "int IssueCompact" where
  "other_row =
     stored_row\<lparr>row_id := Some 2, security_name := Some ''Bolt Ltd'',
                detail_url := Some ''https://host.example/issue/2''\<rparr>"

definition stored_db :: "int db" where
  "stored_db = \<lparr>issues = [stored_row, other_row], next_id = 3\<rparr>"

definition rescraped_row :: "int IssueCompact" where
  "rescraped_row =
     stored_row
       \<lparr>face_value := Some ''10'',
        payload :=
          \<lparr>details = [(''Issue Size'', ''12 Cr'')],
           pdfs = [\<lparr>pdf_label = Some ''RHP'', pdf_url = Some ''https://host.example/a.pdf'',
                    cloud_key = Some ''issues/Acme-Ltd/undated/document_0a1b2c.pdf'',
                    cloud_url = Some ''https://cdn.example/issues/Acme-Ltd/undated/document_0a1b2c.pdf''\<rparr>],
           links = [],
           files = Files_list
                     [\<lparr>file_url = Some ''https://host.example/a.pdf'',
                       file_path_key = Some ''issues/Acme-Ltd/undated/document_0a1b2c.pdf''\<rparr>]\<rparr>\<rparr>"

text \<open>
  The database after a call of \<open>process_item\<close>: the framework logs an exception of
  the pipeline and goes on with the database as the rollback left it.
\<close>

definition db_after :: "pipeline \<Rightarrow> 'f pylib \<Rightarrow> issue_item \<Rightarrow> 'f db \<Rightarrow> 'f db" where
  "db_after self lib item d = (case process_item self lib item d of Inr d' \<Rightarrow> d' | Inl e \<Rightarrow> d)"

definition long_named_item :: issue_item where
  "long_named_item = undated_item\<lparr>i_security_name := Some (replicate 513 CHR ''A'')\<rparr>"

section \<open>Properties of the Pager Extractor\<close>

lemma sort_remdups_Nil [simp]: "(sort (remdups xs) = []) = (xs = [])"
proof -
  have "set (sort (remdups xs)) = set xs" by simp
  then show ?thesis by (metis set_empty)
qed

lemma pager_loop_eq:
  "pager_loop hs (ps, nxt) =
     (ps @ List.map_filter search_page
             (map (\<lambda>(g1, g2). unquote g2) (List.map_filter search_postback hs)),
      nxt \<or> list_ex (contains ''Page$Next'')
             (map (\<lambda>(g1, g2). unquote g2) (List.map_filter search_postback hs)))"
proof (induction hs arbitrary: ps nxt)
  case Nil
  show ?case by simp
next
  case (Cons h hs)
  show ?case
  proof (cases "search_postback h")
    case None
    then show ?thesis using Cons.IH by simp
  next
    case (Some m)
    obtain g1 g2 where m: "m = (g1, g2)" by (cases m)
    show ?thesis
      using Some m Cons.IH
      by (cases "search_page (unquote g2)") (auto simp: Let_def)
  qed
qed

lemma extract_target_eq:
  "extract_target_from_postback_list hs =
     (case List.map_filter search_postback hs of
        [] \<Rightarrow> None
      | (g1, g2) # _ \<Rightarrow> Some (unquote g1))"
  by (induction hs) (auto split: option.splits)

text \<open>
  C2 (as the claim states it, refuted).  On the links of the end-to-end example, with
  target \<open>pager1\<close> and arguments \<open>Page$2\<close> and \<open>Page$Next\<close>, the extractor returns the
  pages \<open>[2]\<close>: page 1 is not in the result, and the result is not
  \<open>(pager1, [1, 2], True)\<close>.  With the arguments spelled \<open>page:2\<close> and \<open>next\<close> no
  argument is recognised, and the result is \<open>(pager1, [1], False)\<close>.
\<close>

theorem extract_pager_example_counterexample:
  "extract_pager pager1_links = \<lparr>target = Some ''pager1'', pages = [2], has_next = True\<rparr>
   \<and> 1 \<notin> set (pages (extract_pager pager1_links))
   \<and> extract_pager pager1_links \<noteq> \<lparr>target = Some ''pager1'', pages = [1, 2], has_next = True\<rparr>
   \<and> extract_pager spelled_links = \<lparr>target = Some ''pager1'', pages = [1], has_next = False\<rparr>
   \<and> extract_pager spelled_links \<noteq> \<lparr>target = Some ''pager1'', pages = [1, 2], has_next = True\<rparr>"
proof -
  have v: "extract_pager pager1_links =
      \<lparr>target = Some ''pager1'', pages = [2], has_next = True\<rparr>"
    by code_simp
  have w: "extract_pager spelled_links =
      \<lparr>target = Some ''pager1'', pages = [1], has_next = False\<rparr>"
    by code_simp
  show ?thesis unfolding v w by simp
qed

text \<open>
  C2 (amended).  For every list of links, the extractor returns the target of the first
  link that matches the post-back pattern (none when no link matches); the page
  indices found in the arguments of the matching links, sorted ascending and without
  repetition, and \<open>[1]\<close> when no index was found (page 1 is not added to a non-empty
  set); and the flag that tells whether some argument contains \<open>Page$Next\<close>.
  The page list is never empty.
\<close>

theorem extract_pager_result:
  "target (extract_pager hs) =
     (case postback_matches hs of [] \<Rightarrow> None | (g1, g2) # _ \<Rightarrow> Some (unquote g1))
   \<and> pages (extract_pager hs) =
     (if found_pages hs = [] then [1] else sort (remdups (found_pages hs)))
   \<and> has_next (extract_pager hs) = list_ex (contains ''Page$Next'') (postback_args hs)
   \<and> sorted (pages (extract_pager hs)) \<and> distinct (pages (extract_pager hs))
   \<and> pages (extract_pager hs) \<noteq> []"
  by (auto simp: extract_pager_def pager_loop_eq extract_target_eq postback_matches_def
        postback_args_def found_pages_def Let_def)

section \<open>Properties of the Row Parser\<close>

lemma fill_item_keys:
  "fst ` set (fill_item headers i vals it) =
     fst ` set it \<union> cell_key headers ` {i..<i + length vals}"
proof (induction vals arbitrary: i it)
  case Nil
  show ?case by simp
next
  case (Cons v vs)
  have "{i..<i + length (v # vs)} = insert i {i + 1..<i + 1 + length vs}" by auto
  then show ?case using Cons.IH [of "i + 1"] by (simp add: dom_update)
qed

lemma fill_item_distinct:
  "distinct (map fst it) \<Longrightarrow> distinct (map fst (fill_item headers i vals it))"
  by (induction vals arbitrary: i it) (simp_all add: distinct_update)

lemma row_item_Some:
  assumes "row_item headers si st pi src r = Some it"
  shows "it = AList.update ''source_url'' (PyStr src)
          (AList.update ''page_index'' (PyInt pi)
            (AList.update ''section_title'' (PyStr st)
              (AList.update ''section'' (PyInt si)
                (fill_item headers 0 (row_cells r) []))))"
  using assms by (auto simp: row_item_def Let_def split: if_splits)

lemma row_item_keys_set:
  assumes "row_item headers si st pi src r = Some it"
  shows "set (map fst it) = set (cell_keys headers (length r)) \<union> set provenance_keys"
    and "distinct (map fst it)"
proof -
  note it = row_item_Some [OF assms]
  have len: "length (row_cells r) = length r" by (simp add: row_cells_def)
  show "set (map fst it) = set (cell_keys headers (length r)) \<union> set provenance_keys"
    unfolding it
    by (auto simp add: dom_update fill_item_keys len cell_keys_def provenance_keys_def)
  show "distinct (map fst it)"
    unfolding it by (intro distinct_update fill_item_distinct) simp
qed

text \<open>
  C6 (as the claim states it, refuted).  Under two header cells with the same name a
  row of two cells yields an item with one column key: the second cell overwrites the
  first, and the item has five keys, four of them the provenance keys.
\<close>

theorem twin_header_counterexample:
  "parse_table twin_header_table 1 ''S'' 1 ''u'' =
     [[(''Date'', PyStr ''05-02-2024''), (''section'', PyInt 1), (''section_title'', PyStr ''S''),
       (''page_index'', PyInt 1), (''source_url'', PyStr ''u'')]]
   \<and> map length (rows twin_header_table) = [2]
   \<and> map length (parse_table twin_header_table 1 ''S'' 1 ''u'') = [5]
   \<and> map (\<lambda>it. length (filter (\<lambda>k. k \<notin> set provenance_keys) (map fst it)))
        (parse_table twin_header_table 1 ''S'' 1 ''u'') = [1]"
proof -
  have v: "parse_table twin_header_table 1 ''S'' 1 ''u'' =
     [[(''Date'', PyStr ''05-02-2024''), (''section'', PyInt 1), (''section_title'', PyStr ''S''),
       (''page_index'', PyInt 1), (''source_url'', PyStr ''u'')]]"
    by code_simp
  show ?thesis unfolding v by (simp add: twin_header_table_def provenance_keys_def)
qed

text \<open>
  C6 (amended).  The keys of the item emitted for a non-blank row are exactly the keys
  chosen for its cells (the header name at the cell's position when there is a
  non-empty one, else \<open>col_<position>\<close>) together with the four provenance keys.  The
  item never has more keys than cells plus four, and it has one key per cell next to
  the four provenance keys exactly when the chosen keys are pairwise distinct and none
  of them is a provenance key.  The parser has no failing branch: a position beyond
  the header gets a placeholder key.
\<close>

theorem row_item_key_count:
  assumes "row_item headers si st pi src r = Some it"
  shows "set (map fst it) = set (cell_keys headers (length r)) \<union> set provenance_keys
       \<and> distinct (map fst it)
       \<and> length it \<le> length r + 4
       \<and> (length it = length r + 4) =
           (distinct (cell_keys headers (length r)) \<and>
            set (cell_keys headers (length r)) \<inter> set provenance_keys = {})"
proof -
  let ?A = "set (cell_keys headers (length r))" and ?B = "set provenance_keys"
  note ks = row_item_keys_set [OF assms]
  have card_it: "length it = card (?A \<union> ?B)"
    using ks by (metis distinct_card length_map)
  have len: "length (cell_keys headers (length r)) = length r"
    by (simp add: cell_keys_def)
  have c1: "card ?A \<le> length r"
    using card_length [of "cell_keys headers (length r)"] len by simp
  have c2: "card ?B = 4"
    by (simp add: provenance_keys_def)
  have ui: "card (?A \<union> ?B) + card (?A \<inter> ?B) = card ?A + 4"
    using card_Un_Int [of ?A ?B] c2 by simp
  have le: "length it \<le> length r + 4"
    unfolding card_it using ui c1 by linarith
  have d: "distinct (cell_keys headers (length r)) = (card ?A = length r)"
    using card_distinct [of "cell_keys headers (length r)"]
      distinct_card [of "cell_keys headers (length r)"] len
    by auto
  have i: "(?A \<inter> ?B = {}) = (card (?A \<inter> ?B) = 0)"
    by simp
  have eq: "(length it = length r + 4) =
      (distinct (cell_keys headers (length r)) \<and> ?A \<inter> ?B = {})"
    unfolding card_it d i using ui c1 by linarith
  show ?thesis using ks le eq by blast
qed

text \<open>
  The example of the specification: a row of seven cells under five header names
  gets the keys \<open>col_6\<close> and \<open>col_7\<close> for its last two cells.
\<close>

theorem row_item_key_count_witness:
  "row_item five_headers 3 ''Approved'' 2 ''http://host/page'' seven_cell_row =
     Some [(''Name'', PyStr ''Acme''), (''Symbol'', PyStr ''ACM''), (''Date'', PyStr ''01-02-2024''),
           (''Status'', PyStr ''Open''), (''Type'', PyStr ''IPO''), (''col_6'', PyStr ''12''),
           (''col_7'', PyStr ''x''), (''section'', PyInt 3), (''section_title'', PyStr ''Approved''),
           (''page_index'', PyInt 2), (''source_url'', PyStr ''http://host/page'')]
   \<and> cell_keys five_headers (length seven_cell_row) =
     [''Name'', ''Symbol'', ''Date'', ''Status'', ''Type'', ''col_6'', ''col_7'']
   \<and> length (the (row_item five_headers 3 ''Approved'' 2 ''http://host/page'' seven_cell_row)) =
     length seven_cell_row + 4"
proof -
  have v: "row_item five_headers 3 ''Approved'' 2 ''http://host/page'' seven_cell_row =
     Some [(''Name'', PyStr ''Acme''), (''Symbol'', PyStr ''ACM''), (''Date'', PyStr ''01-02-2024''),
           (''Status'', PyStr ''Open''), (''Type'', PyStr ''IPO''), (''col_6'', PyStr ''12''),
           (''col_7'', PyStr ''x''), (''section'', PyInt 3), (''section_title'', PyStr ''Approved''),
           (''page_index'', PyInt 2), (''source_url'', PyStr ''http://host/page'')]"
    by code_simp
  have k: "cell_keys five_headers (length seven_cell_row) =
     [''Name'', ''Symbol'', ''Date'', ''Status'', ''Type'', ''col_6'', ''col_7'']"
    by code_simp
  have d: "distinct (cell_keys five_headers (length seven_cell_row)) \<and>
     set (cell_keys five_headers (length seven_cell_row)) \<inter> set provenance_keys = {}"
    unfolding k provenance_keys_def by simp
  from row_item_key_count [OF v] d
  have "length (the (row_item five_headers 3 ''Approved'' 2 ''http://host/page'' seven_cell_row)) =
     length seven_cell_row + 4"
    unfolding v by simp
  with v k show ?thesis by simp
qed




lemma row_item_None_iff:
  "(row_item hs si st pi src r \<noteq> None) = any_cell (row_cells r)"
  by (simp add: row_item_def Let_def)


text \<open>
  C7 (as the claim states it, refuted).  A table without \<open>th\<close> cells whose first row
  has two cells, both with letters, and whose second row has three cells: the first
  row is taken as the header row although its cell count differs from the next row's.
\<close>

theorem ragged_table_counterexample:
  "th_headers ragged_table = []
   \<and> map length (rows ragged_table) = [2, 3]
   \<and> resolve_headers ragged_table = [''Name'', ''Age'']"
  by code_simp

text \<open>
  C7 (amended).  Explicit header cells win.  Without them, the non-blank texts of the
  first data row become the headers whenever most of them contain a letter, and no
  header is inferred when none of them contains a letter (or the row has no text);
  the rows after the first are not consulted, so their cell counts play no part.
\<close>

theorem resolve_headers_inference:
  "(th_headers tbl \<noteq> [] \<longrightarrow> resolve_headers tbl = th_headers tbl)
   \<and> (th_headers tbl = [] \<and> length (first_row_cand tbl) < 2 * letter_count (first_row_cand tbl)
        \<longrightarrow> resolve_headers tbl = first_row_cand tbl)
   \<and> (th_headers tbl = [] \<and> letter_count (first_row_cand tbl) = 0
        \<longrightarrow> resolve_headers tbl = [])
   \<and> resolve_headers (tbl\<lparr>rows := r # rs\<rparr>) = resolve_headers (tbl\<lparr>rows := r # rs'\<rparr>)"
proof -
  have any: "list_ex (\<lambda>c. list_ex is_alpha c) cand = (0 < letter_count cand)" for cand
    by (simp add: letter_count_def list_ex_iff filter_empty_conv) 
  have most: "cand \<noteq> [] \<and> 0 < letter_count cand"
    if "length cand < 2 * letter_count cand" for cand
    using that by (cases cand) (auto simp: letter_count_def)
  show ?thesis
    using most [of "first_row_cand tbl"]
    by (auto simp: resolve_headers_def Let_def any th_headers_def first_row_cand_def)
qed

theorem resolve_headers_inference_witness:
  "th_headers twin_header_table \<noteq> []
   \<and> resolve_headers twin_header_table = [''Date'', ''Date'']
   \<and> th_headers ragged_table = []
   \<and> length (first_row_cand ragged_table) < 2 * letter_count (first_row_cand ragged_table)
   \<and> resolve_headers ragged_table = first_row_cand ragged_table
   \<and> th_headers numeric_first_row_table = []
   \<and> letter_count (first_row_cand numeric_first_row_table) = 0
   \<and> resolve_headers numeric_first_row_table = []"
proof -
  have a: "th_headers twin_header_table \<noteq> []" by code_simp
  have a': "th_headers twin_header_table = [''Date'', ''Date'']" by code_simp
  have b: "th_headers ragged_table = [] \<and>
      length (first_row_cand ragged_table) < 2 * letter_count (first_row_cand ragged_table)"
    by code_simp
  have c: "th_headers numeric_first_row_table = [] \<and>
      letter_count (first_row_cand numeric_first_row_table) = 0"
    by code_simp
  show ?thesis
    using a a' b c resolve_headers_inference [of twin_header_table]
      resolve_headers_inference [of ragged_table]
      resolve_headers_inference [of numeric_first_row_table]
    by simp
qed





section \<open>The Section Locator and the Traversal Controller on concrete runs\<close>

text \<open>
  C3 (the code at the failing input).  One page holds the heading of section 1 with a
  table that has rows and no pager, the heading of section 2 with another such table,
  and no heading of section 3.  The call for section 1 returns the first table and
  stores it in the attribute of the spider.  After it, the call for section 2, whose
  only candidate is the second table, returns the table of section 1; and the call for
  section 3, whose heading is absent so that there is no candidate, returns the table
  of section 1 as well instead of \<open>None\<close>.  Only a spider whose attribute was never
  set gets \<open>None\<close> for the absent heading.
\<close>

theorem shared_fallback_slot:
  "pick_section_table new_spider two_section_page (SECTION_TITLES ! 0) =
     (Some first_section_table, \<lparr>fallback_table_chosen = Some first_section_table\<rparr>)
   \<and> candidates two_section_page (SECTION_TITLES ! 1) = [second_section_table]
   \<and> pick_section_table \<lparr>fallback_table_chosen = Some first_section_table\<rparr> two_section_page
        (SECTION_TITLES ! 1) =
     (Some first_section_table, \<lparr>fallback_table_chosen = Some first_section_table\<rparr>)
   \<and> candidates two_section_page (SECTION_TITLES ! 2) = []
   \<and> pick_section_table \<lparr>fallback_table_chosen = Some first_section_table\<rparr> two_section_page
        (SECTION_TITLES ! 2) =
     (Some first_section_table, \<lparr>fallback_table_chosen = Some first_section_table\<rparr>)
   \<and> pick_section_table new_spider two_section_page (SECTION_TITLES ! 2) = (None, new_spider)"
  by code_simp

text \<open>
  C4 (the code at the failing input).  A section of three pages: page 1 links to pages
  2 and 3, page 2 links to pages 1 and 3.  \<open>parse\<close> requests pages 2 and 3 of section
  1; the callback of the request for page 2, run on page 2, requests page 3 of
  section 1 again.  In a next-chain the set \<open>seen\<close> starts as \<open>{1}\<close>: the chain that
  reaches pages 2, 3 and 4 by \<open>Page$Next\<close> also requests pages 3, 4 and 2 by number.
\<close>

theorem numeric_dispatch_repeats_page:
  "issued (fst (parse new_spider page_one)) =
     [(Parse_section_page, 1, 2, ''Page$2''), (Parse_section_page, 1, 3, ''Page$3'')]
   \<and> issued (fst (run_callback new_spider (hd (requests_of (fst (parse new_spider page_one))))
                    page_two)) =
     [(Parse_section_page, 1, 3, ''Page$3'')]
   \<and> map page_of
        (next_chain new_spider
           [page_with_next [''Page$1'', ''Page$3'', ''Page$4'', ''Page$Next''],
            page_with_next [''Page$1'', ''Page$2'', ''Page$4'', ''Page$5'', ''Page$Next''],
            page_with_next [''Page$1'', ''Page$2'', ''Page$3'', ''Page$5'']]
           1 (SECTION_TITLES ! 0) ''gv'' 2 {1}) =
     [3, 4, 2, 5]"
  by code_simp

section \<open>Properties of the Traversal Controller\<close>

lemma requests_of_append [simp]: "requests_of (xs @ ys) = requests_of xs @ requests_of ys"
  by (induction xs rule: requests_of.induct) auto

lemma requests_of_Items [simp]: "requests_of (map Item xs) = []"
  by (induction xs) auto

lemma requests_of_Reqs [simp]: "requests_of (map (\<lambda>x. Req (f x)) xs) = map f xs"
  by (induction xs) auto

lemma page_request_fields [simp]:
  "callback (page_request resp sec title tgt p) = Parse_section_page"
  "page_of (page_request resp sec title tgt p) = p"
  "kw_section_index (kwargs (page_request resp sec title tgt p)) = sec"
  by (simp_all add: page_request_def make_postback_request_def page_of_def)

lemma next_request_fields [simp]:
  "callback (next_request resp sec title tgt p seen) = Parse_section_next"
  "page_of (next_request resp sec title tgt p seen) = p"
  "seen_of (next_request resp sec title tgt p seen) = seen"
  by (simp_all add: next_request_def make_postback_request_def page_of_def seen_of_def)

lemma pages_sorted_distinct:
  "sorted (pages (extract_pager hs))" "distinct (pages (extract_pager hs))"
  by (simp_all add: extract_pager_def Let_def split: prod.splits)

text \<open>
  The requests that \<open>_parse_section_page\<close> issues on one response are for pages above
  its own page, in ascending order and without repetition, and all of them call
  \<open>_parse_section_page\<close> for the same section.  So the page index grows strictly along
  every line of descent of numeric requests; nothing relates the requests of two
  different responses.
\<close>

theorem numeric_dispatch_forward:
  "sorted (map page_of (requests_of (fst (parse_section_page sp resp sec title tgt page))))
   \<and> distinct (map page_of (requests_of (fst (parse_section_page sp resp sec title tgt page))))
   \<and> list_all (\<lambda>rq. page < page_of rq \<and> callback rq = Parse_section_page
                    \<and> kw_section_index (kwargs rq) = sec)
        (requests_of (fst (parse_section_page sp resp sec title tgt page)))"
proof (cases "pick_section_table sp resp title")
  case (Pair t sp')
  show ?thesis
  proof (cases t)
    case None
    with Pair show ?thesis by (simp add: parse_section_page_def)
  next
    case (Some tbl)
    let ?ps = "filter (\<lambda>p. page < p) (pages (extract_pager (hrefs tbl)))"
    have rq: "requests_of (fst (parse_section_page sp resp sec title tgt page)) =
        map (page_request resp sec title tgt) ?ps"
      using Pair Some by (simp add: parse_section_page_def Let_def)
    have m: "map page_of (map (page_request resp sec title tgt) ?ps) = ?ps"
      by (simp add: comp_def)
    have s: "sorted ?ps" "distinct ?ps"
      using pages_sorted_distinct [of "hrefs tbl"] by (simp_all add: sorted_wrt_filter)
    show ?thesis unfolding rq m using s by (simp add: list_all_iff)
  qed
qed

lemma next_loop_eq:
  "distinct ps \<Longrightarrow>
   next_loop resp sec title tgt page ps seen =
     (map (\<lambda>p. Req (page_request resp sec title tgt p))
        (filter (\<lambda>p. p \<notin> seen \<and> p \<noteq> page) ps),
      seen \<union> set ps)"
proof (induction ps arbitrary: seen)
  case Nil
  show ?case by simp
next
  case (Cons p ps)
  then have d: "distinct ps" and np: "p \<notin> set ps" by simp_all
  have f: "filter (\<lambda>q. q \<notin> insert p seen \<and> q \<noteq> page) ps =
           filter (\<lambda>q. q \<notin> seen \<and> q \<noteq> page) ps"
    using np by (intro filter_cong) auto
  show ?case using Cons.IH [OF d] f by auto
qed


lemma parse_section_next_requests:
  "\<exists>ps seen'. distinct ps \<and> seen \<union> set ps \<subseteq> seen'
     \<and> numeric_requests (fst (parse_section_next sp resp sec title tgt page seen)) =
         map (page_request resp sec title tgt) (filter (\<lambda>p. p \<notin> seen \<and> p \<noteq> page) ps)
     \<and> (chain_requests (fst (parse_section_next sp resp sec title tgt page seen)) = []
          \<or> chain_requests (fst (parse_section_next sp resp sec title tgt page seen)) =
             [next_request resp sec title tgt (page + 1) seen'])"
proof (cases "pick_section_table sp resp title")
  case (Pair t sp')
  show ?thesis
  proof (cases t)
    case None
    have "fst (parse_section_next sp resp sec title tgt page seen) = []"
      using Pair None by (simp add: parse_section_next_def)
    then show ?thesis
      by (intro exI [of _ "[]"] exI [of _ seen]) (simp add: numeric_requests_def chain_requests_def)
  next
    case (Some tbl)
    let ?pg = "extract_pager (hrefs tbl)"
    let ?ps = "pages ?pg"
    let ?seen1 = "seen \<union> set ?ps"
    let ?seen2 = "if page + 1 \<notin> ?seen1 then insert (page + 1) ?seen1 else ?seen1"
    have d: "distinct ?ps" by (rule pages_sorted_distinct)
    have outs: "requests_of (fst (parse_section_next sp resp sec title tgt page seen)) =
        map (page_request resp sec title tgt) (filter (\<lambda>p. p \<notin> seen \<and> p \<noteq> page) ?ps)
        @ (if has_next ?pg then [next_request resp sec title tgt (page + 1) ?seen2] else [])"
      using Pair Some by (simp add: parse_section_next_def Let_def next_loop_eq [OF d])
    have n: "numeric_requests (fst (parse_section_next sp resp sec title tgt page seen)) =
        map (page_request resp sec title tgt) (filter (\<lambda>p. p \<notin> seen \<and> p \<noteq> page) ?ps)"
      unfolding numeric_requests_def outs by (simp add: filter_map comp_def)
    have c: "chain_requests (fst (parse_section_next sp resp sec title tgt page seen)) =
        (if has_next ?pg then [next_request resp sec title tgt (page + 1) ?seen2] else [])"
      unfolding chain_requests_def outs by (simp add: filter_map comp_def)
    have sub: "seen \<union> set ?ps \<subseteq> ?seen2" by auto
    show ?thesis
      using d sub n c by (intro exI [of _ ?ps] exI [of _ ?seen2]) simp
  qed
qed

text \<open>
  Along a next-chain, whatever the responses are, the callbacks \<open>_parse_section_next\<close>
  of the chain request no numeric page twice and no page that was in \<open>seen\<close> at the
  start of the chain.
\<close>

theorem next_chain_guard:
  "distinct (map page_of (next_chain sp resps sec title tgt page seen))
   \<and> set (map page_of (next_chain sp resps sec title tgt page seen)) \<inter> seen = {}
   \<and> list_all (\<lambda>rq. callback rq = Parse_section_page)
        (next_chain sp resps sec title tgt page seen)"
proof (induction resps arbitrary: sp page seen)
  case Nil
  show ?case by simp
next
  case (Cons resp resps)
  let ?outs = "fst (parse_section_next sp resp sec title tgt page seen)"
  let ?sp' = "snd (parse_section_next sp resp sec title tgt page seen)"
  obtain ps seen' where ps: "distinct ps" "seen \<union> set ps \<subseteq> seen'"
    and n: "numeric_requests ?outs =
         map (page_request resp sec title tgt) (filter (\<lambda>p. p \<notin> seen \<and> p \<noteq> page) ps)"
    and c: "chain_requests ?outs = [] \<or>
            chain_requests ?outs = [next_request resp sec title tgt (page + 1) seen']"
    using parse_section_next_requests [of seen sp resp sec title tgt page] by blast
  let ?nums = "filter (\<lambda>p. p \<notin> seen \<and> p \<noteq> page) ps"
  have pn: "map page_of (numeric_requests ?outs) = ?nums"
    unfolding n by (simp add: comp_def)
  have cn: "list_all (\<lambda>rq. callback rq = Parse_section_page) (numeric_requests ?outs)"
    by (simp add: numeric_requests_def list_all_iff)
  from c show ?case
  proof
    assume e: "chain_requests ?outs = []"
    have "next_chain sp (resp # resps) sec title tgt page seen = numeric_requests ?outs"
      using e by (simp add: case_prod_unfold)
    then show ?thesis using pn cn ps(1) by auto
  next
    assume e: "chain_requests ?outs = [next_request resp sec title tgt (page + 1) seen']"
    let ?rest = "next_chain ?sp' resps sec title tgt (page + 1) seen'"
    have nc: "next_chain sp (resp # resps) sec title tgt page seen =
        numeric_requests ?outs @ ?rest"
      using e by (simp add: case_prod_unfold)
    note ih = Cons.IH [of ?sp' "page + 1" seen']
    have disj: "set ?nums \<inter> set (map page_of ?rest) = {}"
      using ih ps(2) by auto
    have d: "distinct (map page_of (numeric_requests ?outs @ ?rest))"
      using pn ps(1) ih disj by simp
    have s: "set (map page_of (numeric_requests ?outs @ ?rest)) \<inter> seen = {}"
      using pn ih ps(2) by auto
    show ?thesis unfolding nc using d s cn ih by simp
  qed
qed

section \<open>Properties of the Persistence Layer\<close>

subsection \<open>Dates, slugs, hashes and extensions\<close>

lemma to_iso_date_Inr: "to_iso_date lib s = Inr (iso_date_of lib s)"
  by (auto simp: to_iso_date_def iso_date_of_def Let_def split: option.splits sum.splits)

lemma try_formats_Some:
  "fmt \<in> set fmts \<Longrightarrow> strptime lib t fmt = Inr d \<Longrightarrow> \<exists>d'. try_formats lib t fmts = Some d'"
  by (induction fmts) (auto split: sum.splits)

lemma try_formats_first:
  "(\<forall>f \<in> set pre. \<exists>e. strptime lib t f = Inl e) \<Longrightarrow> strptime lib t fmt = Inr d \<Longrightarrow>
   try_formats lib t (pre @ fmt # post) = Some d"
  by (induction pre) auto

lemma try_formats_None:
  "(\<forall>f \<in> set fmts. \<exists>e. strptime lib t f = Inl e) \<Longrightarrow> try_formats lib t fmts = None"
  by (induction fmts) auto














subsection \<open>The upsert\<close>

lemma new_issue_eq: "new_issue self lib item = Inr (issue_of self lib item)"
  by (simp add: new_issue_def issue_of_def to_iso_date_Inr)

lemma sql_eq_iff: "sql_eq col v = (col = v)"
  by (cases v) (simp_all add: sql_eq_def)

lemma identity_filter_iff: "identity_filter obj r = (identity_key r = identity_key obj)"
  by (auto simp: identity_filter_def identity_key_def sql_eq_iff)

lemma filter_identity: "filter (identity_filter obj) (issues d) = rows_with_identity obj d"
  unfolding rows_with_identity_def by (rule filter_cong) (simp_all add: identity_filter_iff)

lemma distinct_map_filter_le1:
  "distinct (map f xs) \<Longrightarrow> length (filter (\<lambda>x. f x = k) xs) \<le> 1"
proof (induction xs)
  case Nil
  show ?case by simp
next
  case (Cons x xs)
  show ?case
  proof (cases "f x = k")
    case True
    have "f x \<notin> f ` set xs" using Cons.prems by simp
    then have "\<forall>y \<in> set xs. f y \<noteq> k" unfolding True [symmetric] by (metis imageI)
    then have "filter (\<lambda>y. f y = k) xs = []"
      by (simp add: filter_empty_conv)
    with True show ?thesis by simp
  next
    case False
    with Cons show ?thesis by simp
  qed
qed

lemma one_or_none_cases:
  assumes "length xs \<le> 1"
  obtains (none) "xs = []" "one_or_none xs = Inr None"
        | (one) x where "xs = [x]" "one_or_none xs = Inr (Some x)"
proof (cases xs)
  case Nil
  then show ?thesis using none by (simp add: one_or_none_def)
next
  case (Cons x ys)
  with assms have "ys = []" by simp
  with Cons show ?thesis using one by (simp add: one_or_none_def)
qed

lemma one_or_none_Some: "one_or_none xs = Inr (Some x) \<Longrightarrow> xs = [x]"
  by (auto simp: one_or_none_def split: list.splits)

lemma one_or_none_None: "one_or_none xs = Inr None \<Longrightarrow> xs = []"
  by (auto simp: one_or_none_def split: list.splits)

text \<open>Inserting.\<close>

lemma id_below_mono: "id_below n r \<Longrightarrow> n \<le> m \<Longrightarrow> id_below m r"
  by (auto simp: id_below_def split: option.splits)

lemma id_below_not_next: "list_all (id_below n) rs \<Longrightarrow> Some n \<notin> row_id ` set rs"
  by (auto simp: list_all_iff id_below_def split: option.splits)

lemma add_commit_ok:
  assumes ok: "db_ok d" and col: "column_error obj = None"
    and none: "rows_with_identity obj d = []"
  shows "add_commit d obj =
           Inr \<lparr>issues = issues d @ [obj\<lparr>row_id := Some (next_id d)\<rparr>], next_id = next_id d + 1\<rparr>"
    and "db_ok \<lparr>issues = issues d @ [obj\<lparr>row_id := Some (next_id d)\<rparr>], next_id = next_id d + 1\<rparr>"
    and "rows_with_identity obj
           \<lparr>issues = issues d @ [obj\<lparr>row_id := Some (next_id d)\<rparr>], next_id = next_id d + 1\<rparr> =
         [obj\<lparr>row_id := Some (next_id d)\<rparr>]"
proof -
  let ?new = "obj\<lparr>row_id := Some (next_id d)\<rparr>"
  have key: "identity_key ?new = identity_key obj" by (simp add: identity_key_def)
  have nokey': "\<forall>r \<in> set (issues d). identity_key r \<noteq> identity_key obj"
    using none by (auto simp: rows_with_identity_def filter_empty_conv)
  then have nokey: "identity_key obj \<notin> identity_key ` set (issues d)"
    by force
  have "\<not> unique_violation (issues d) obj"
    using nokey' by (auto simp: unique_violation_def list_ex_iff)
  then show "add_commit d obj = Inr \<lparr>issues = issues d @ [?new], next_id = next_id d + 1\<rparr>"
    using col by (simp add: add_commit_def)
  have colnew: "column_error ?new = None"
    using col by (simp add: column_error_def widths_ok_def split: if_splits)
  have ids: "list_all (id_below (next_id d + 1)) (issues d)"
    using ok by (auto simp: db_ok_def list_all_iff intro: id_below_mono)
  show "db_ok \<lparr>issues = issues d @ [?new], next_id = next_id d + 1\<rparr>"
    using ok ids colnew nokey key id_below_not_next [of "next_id d" "issues d"]
    by (auto simp: db_ok_def id_below_def)
  show "rows_with_identity obj \<lparr>issues = issues d @ [?new], next_id = next_id d + 1\<rparr> = [?new]"
    using none key by (simp add: rows_with_identity_def)
qed

text \<open>Updating.\<close>

lemma overwrite_frame:
  "row_id (overwrite lib existing obj) = row_id existing"
  "identity_key (overwrite lib existing obj) = identity_key existing"
  by (simp_all add: overwrite_def identity_key_def)

lemma fits_set_str: "fits n old \<Longrightarrow> fits n val \<Longrightarrow> fits n (set_str old val)"
  by (simp add: set_str_def)

lemma overwrite_column_error:
  assumes "column_error existing = None" and "column_error obj = None"
  shows "column_error (overwrite lib existing obj) = None"
proof -
  have a: "security_name existing \<noteq> None" "widths_ok existing" "widths_ok obj"
    using assms by (auto simp: column_error_def split: if_splits)
  have "security_name (overwrite lib existing obj) \<noteq> None"
    using a(1) by (simp add: overwrite_def)
  moreover have "widths_ok (overwrite lib existing obj)"
    using a(2,3) by (simp add: widths_ok_def overwrite_def fits_set_str)
  ultimately show ?thesis by (simp add: column_error_def)
qed

lemma map_replace_by_id:
  assumes "distinct (map row_id xs)" and "x \<in> set xs" and "row_id c = row_id x"
  shows "map (\<lambda>r. if row_id r = row_id c then c else r) xs = map (\<lambda>r. if r = x then c else r) xs"
proof (rule map_cong [OF refl])
  fix r assume "r \<in> set xs"
  then have "(row_id r = row_id x) = (r = x)"
    using assms(1,2) by (auto simp: distinct_map dest: inj_onD)
  then show "(if row_id r = row_id c then c else r) = (if r = x then c else r)"
    using assms(3) by simp
qed

lemma update_commit_ok:
  assumes ok: "db_ok d" and col: "column_error obj = None"
    and one: "rows_with_identity obj d = [existing]"
  shows "update_commit d (overwrite lib existing obj) =
           Inr (d\<lparr>issues := map (\<lambda>r. if r = existing then overwrite lib existing obj else r)
                                (issues d)\<rparr>)"
    and "db_ok (d\<lparr>issues := map (\<lambda>r. if r = existing then overwrite lib existing obj else r)
                              (issues d)\<rparr>)"
    and "rows_with_identity obj
           (d\<lparr>issues := map (\<lambda>r. if r = existing then overwrite lib existing obj else r)
                             (issues d)\<rparr>) = [overwrite lib existing obj]"
proof -
  let ?c = "overwrite lib existing obj"
  let ?f = "\<lambda>r. if r = existing then ?c else r"
  have "existing \<in> set (rows_with_identity obj d)" using one by simp
  then have mem: "existing \<in> set (issues d)"
    and ekey: "identity_key existing = identity_key obj"
    by (auto simp: rows_with_identity_def)
  have ecol: "column_error existing = None"
    using ok mem by (auto simp: db_ok_def list_all_iff)
  have ccol: "column_error ?c = None" by (rule overwrite_column_error [OF ecol col])
  have dist: "distinct (map row_id (issues d))" using ok by (simp add: db_ok_def)
  have repl: "map (\<lambda>r. if row_id r = row_id ?c then ?c else r) (issues d) = map ?f (issues d)"
    by (rule map_replace_by_id [OF dist mem]) (simp add: overwrite_frame)
  show "update_commit d ?c = Inr (d\<lparr>issues := map ?f (issues d)\<rparr>)"
    using ccol repl by (simp add: update_commit_def)
  have ids: "map row_id (map ?f (issues d)) = map row_id (issues d)"
    by (auto simp: overwrite_frame)
  have keys: "map identity_key (map ?f (issues d)) = map identity_key (issues d)"
    by (auto simp: overwrite_frame)
  have below: "list_all (id_below (next_id d)) (map ?f (issues d))"
    using ok mem by (auto simp: db_ok_def list_all_iff id_below_def overwrite_frame)
  have cols: "list_all (\<lambda>r. column_error r = None) (map ?f (issues d))"
    using ok ccol by (auto simp: db_ok_def list_all_iff)
  show "db_ok (d\<lparr>issues := map ?f (issues d)\<rparr>)"
    using ok below cols ids keys by (simp add: db_ok_def del: map_map)
  have kf: "identity_key (?f r) = identity_key r" for r
    by (simp add: overwrite_frame)
  have "filter (\<lambda>r. identity_key r = identity_key obj) (map ?f (issues d)) =
        map ?f (filter (\<lambda>r. identity_key r = identity_key obj) (issues d))"
    unfolding filter_map comp_def kf by (rule refl)
  then show "rows_with_identity obj (d\<lparr>issues := map ?f (issues d)\<rparr>) = [?c]"
    using one by (simp add: rows_with_identity_def)
qed

lemma process_item_ok:
  assumes ok: "db_ok d" and col: "column_error (issue_of self lib item) = None"
  shows "\<exists>d'. process_item self lib item d = Inr d' \<and> db_ok d' \<and>
              length (rows_with_identity (issue_of self lib item) d') = 1"
proof -
  let ?obj = "issue_of self lib item"
  have le: "length (rows_with_identity ?obj d) \<le> 1"
    unfolding rows_with_identity_def
    using ok by (intro distinct_map_filter_le1) (simp add: db_ok_def)
  then show ?thesis
  proof (cases rule: one_or_none_cases)
    case none
    note a = add_commit_ok [OF ok col none(1)]
    have "process_item self lib item d = add_commit d ?obj"
      using none(2) by (simp add: process_item_def new_issue_eq filter_identity)
    with a show ?thesis by simp
  next
    case (one existing)
    note u = update_commit_ok [OF ok col one(1), of lib]
    have "process_item self lib item d = update_commit d (overwrite lib existing ?obj)"
      using one(2) by (simp add: process_item_def new_issue_eq filter_identity)
    with u show ?thesis by simp
  qed
qed

text \<open>
  C10.  \<open>to_iso_date\<close> never raises: its result is always a value.  It returns \<open>None\<close>
  for \<open>None\<close> and for the empty string; a date when one of its five formats parses
  the stripped text, namely the date of the first format that does; the date of
  \<open>fromisoformat\<close> when no format parses the text and \<open>fromisoformat\<close> does; and \<open>None\<close>
  when nothing parses the text.  Consequently an item whose start date text does not
  parse is stored, in a well-formed database and when the table accepts its other
  columns, as a row with a \<open>NULL\<close> start date in its identity key.
\<close>

theorem to_iso_date_total:
  "(\<exists>r. to_iso_date lib s = Inr r)
   \<and> to_iso_date lib None = Inr None
   \<and> to_iso_date lib (Some []) = Inr None
   \<and> (t \<noteq> [] \<and> fmt \<in> set DATE_FORMATS \<and> strptime lib (strip t) fmt = Inr dt1
        \<longrightarrow> (\<exists>dt'. to_iso_date lib (Some t) = Inr (Some dt')))
   \<and> (t \<noteq> [] \<and> DATE_FORMATS = pre @ fmt # post
        \<and> (\<forall>f \<in> set pre. \<exists>e. strptime lib (strip t) f = Inl e)
        \<and> strptime lib (strip t) fmt = Inr dt1
        \<longrightarrow> to_iso_date lib (Some t) = Inr (Some dt1))
   \<and> (t \<noteq> [] \<and> (\<forall>f \<in> set DATE_FORMATS. \<exists>e. strptime lib (strip t) f = Inl e)
        \<and> fromisoformat lib (strip t) = Inr dt1
        \<longrightarrow> to_iso_date lib (Some t) = Inr (Some dt1))
   \<and> ((\<forall>f \<in> set DATE_FORMATS. \<exists>e. strptime lib (strip t) f = Inl e)
        \<and> (\<exists>e. fromisoformat lib (strip t) = Inl e)
        \<longrightarrow> to_iso_date lib (Some t) = Inr None)
   \<and> (db_ok d \<and> column_error (issue_of self lib item) = None
        \<and> to_iso_date lib (i_start_date item) = Inr None
        \<longrightarrow> (\<exists>d' r. process_item self lib item d = Inr d'
               \<and> rows_with_identity (issue_of self lib item) d' = [r]
               \<and> start_date r = None
               \<and> identity_key r =
                   (i_security_name item, None, iso_date_of lib (i_end_date item),
                    i_detail_url item)))"
proof -
  have total: "\<exists>r. to_iso_date lib s = Inr r" by (simp add: to_iso_date_Inr)
  have none: "to_iso_date lib None = Inr None" "to_iso_date lib (Some []) = Inr None"
    by (simp_all add: to_iso_date_def str_truthy_def)
  have some: "\<exists>dt'. to_iso_date lib (Some t) = Inr (Some dt')"
    if a1: "t \<noteq> []" and a2: "fmt \<in> set DATE_FORMATS"
      and a3: "strptime lib (strip t) fmt = Inr dt1"
  proof -
    obtain dt' where "try_formats lib (strip t) DATE_FORMATS = Some dt'"
      using try_formats_Some [OF a2 a3] by blast
    then show ?thesis using a1 by (simp add: to_iso_date_def str_truthy_def)
  qed
  have first: "to_iso_date lib (Some t) = Inr (Some dt1)"
    if "t \<noteq> []" "DATE_FORMATS = pre @ fmt # post"
      "\<forall>f \<in> set pre. \<exists>e. strptime lib (strip t) f = Inl e"
      "strptime lib (strip t) fmt = Inr dt1"
  proof -
    have "try_formats lib (strip t) DATE_FORMATS = Some dt1"
      unfolding that(2) by (rule try_formats_first [OF that(3,4)])
    then show ?thesis using that(1) by (simp add: to_iso_date_def str_truthy_def)
  qed
  have iso: "to_iso_date lib (Some t) = Inr (Some dt1)"
    if "t \<noteq> []" "\<forall>f \<in> set DATE_FORMATS. \<exists>e. strptime lib (strip t) f = Inl e"
      "fromisoformat lib (strip t) = Inr dt1"
    using that try_formats_None [OF that(2)]
    by (simp add: to_iso_date_def str_truthy_def)
  have fail: "to_iso_date lib (Some t) = Inr None"
    if "\<forall>f \<in> set DATE_FORMATS. \<exists>e. strptime lib (strip t) f = Inl e"
      "\<exists>e. fromisoformat lib (strip t) = Inl e"
    using that try_formats_None [OF that(1)]
    by (auto simp: to_iso_date_def str_truthy_def)
  have stored: "\<exists>d' r. process_item self lib item d = Inr d'
               \<and> rows_with_identity (issue_of self lib item) d' = [r]
               \<and> start_date r = None
               \<and> identity_key r =
                   (i_security_name item, None, iso_date_of lib (i_end_date item),
                    i_detail_url item)"
    if ok: "db_ok d" and col: "column_error (issue_of self lib item) = None"
      and un: "to_iso_date lib (i_start_date item) = Inr None"
  proof -
    let ?obj = "issue_of self lib item"
    obtain d' where d': "process_item self lib item d = Inr d'"
        "length (rows_with_identity ?obj d') = 1"
      using process_item_ok [OF ok col] by blast
    then obtain r where r: "rows_with_identity ?obj d' = [r]"
      by (cases "rows_with_identity ?obj d'") auto
    then have "r \<in> set (rows_with_identity ?obj d')" by simp
    then have k: "identity_key r = identity_key ?obj" by (simp add: rows_with_identity_def)
    have sd: "iso_date_of lib (i_start_date item) = None"
      using un by (simp add: iso_date_of_def)
    have ko: "identity_key ?obj =
        (i_security_name item, None, iso_date_of lib (i_end_date item), i_detail_url item)"
      by (simp add: identity_key_def issue_of_def sd)
    have "start_date r = None" using k ko by (simp add: identity_key_def)
    with d'(1) r k ko show ?thesis by simp
  qed
  show ?thesis using total none some first iso fail stored by blast
qed

theorem to_iso_date_total_witness:
  "to_iso_date demo_lib (Some '' 15-01-2024'') = Inr (Some \<lparr>year = 2024, month = 1, day = 15\<rparr>)
   \<and> strptime demo_lib (strip '' 15-01-2024'') ''%Y-%m-%d'' = Inl ValueError
   \<and> strptime demo_lib (strip '' 15-01-2024'') ''%d-%m-%Y'' =
        Inr \<lparr>year = 2024, month = 1, day = 15\<rparr>
   \<and> list_all (\<lambda>f. strptime demo_lib (strip ''2024-01-15T09:30:00'') f = Inl ValueError) DATE_FORMATS
   \<and> to_iso_date demo_lib (Some ''2024-01-15T09:30:00'') =
        Inr (Some \<lparr>year = 2024, month = 1, day = 15\<rparr>)
   \<and> list_all (\<lambda>f. strptime demo_lib (strip ''TBA'') f = Inl ValueError) DATE_FORMATS
   \<and> fromisoformat demo_lib (strip ''TBA'') = Inl ValueError
   \<and> to_iso_date demo_lib (Some ''TBA'') = Inr None
   \<and> db_ok (empty_db :: int db)
   \<and> column_error (issue_of r2 demo_lib undated_item) = None
   \<and> i_start_date undated_item = Some ''TBA''
   \<and> (\<exists>d' r. process_item r2 demo_lib undated_item empty_db = Inr d'
          \<and> rows_with_identity (issue_of r2 demo_lib undated_item) d' = [r]
          \<and> start_date r = None
          \<and> identity_key r = (Some ''Acme Ltd'', None, None, None))"
proof -
  let ?D = "\<lparr>year = 2024, month = 1, day = 15\<rparr>"
  note T = to_iso_date_total
  have f0: "DATE_FORMATS = [''%Y-%m-%d''] @ ''%d-%m-%Y'' # [''%d/%m/%Y'', ''%d %b %Y'', ''%d %B %Y'']"
    by (simp add: DATE_FORMATS_def)
  have p1: "strptime demo_lib (strip '' 15-01-2024'') ''%Y-%m-%d'' = Inl ValueError" by code_simp
  have p2: "strptime demo_lib (strip '' 15-01-2024'') ''%d-%m-%Y'' = Inr ?D" by code_simp
  have pre: "\<forall>f \<in> set [''%Y-%m-%d'']. \<exists>e. strptime demo_lib (strip '' 15-01-2024'') f = Inl e"
    using p1 by simp
  have c1: "to_iso_date demo_lib (Some '' 15-01-2024'') = Inr (Some ?D)"
    using T [of demo_lib None "'' 15-01-2024''" "''%d-%m-%Y''" ?D "[''%Y-%m-%d'']"
             "[''%d/%m/%Y'', ''%d %b %Y'', ''%d %B %Y'']" empty_db r2 undated_item]
      f0 pre p2 by blast
  have q1: "list_all (\<lambda>f. strptime demo_lib (strip ''2024-01-15T09:30:00'') f = Inl ValueError)
              DATE_FORMATS"
    by code_simp
  have q2: "fromisoformat demo_lib (strip ''2024-01-15T09:30:00'') = Inr ?D" by code_simp
  have q1': "\<forall>f \<in> set DATE_FORMATS. \<exists>e. strptime demo_lib (strip ''2024-01-15T09:30:00'') f = Inl e"
    using q1 by (auto simp: list_all_iff)
  have c2: "to_iso_date demo_lib (Some ''2024-01-15T09:30:00'') = Inr (Some ?D)"
    using T [of demo_lib None "''2024-01-15T09:30:00''" "''%d-%m-%Y''" ?D "[]" "[]" empty_db r2
             undated_item] q1' q2
    by blast
  have r1: "list_all (\<lambda>f. strptime demo_lib (strip ''TBA'') f = Inl ValueError) DATE_FORMATS"
    by code_simp
  have r2': "fromisoformat demo_lib (strip ''TBA'') = Inl ValueError" by code_simp
  have r1': "\<forall>f \<in> set DATE_FORMATS. \<exists>e. strptime demo_lib (strip ''TBA'') f = Inl e"
    using r1 by (auto simp: list_all_iff)
  have c3: "to_iso_date demo_lib (Some ''TBA'') = Inr None"
    using T [of demo_lib None "''TBA''" "''%d-%m-%Y''" ?D "[]" "[]" empty_db r2 undated_item]
      r1' r2'
    by blast
  have a: "db_ok (empty_db :: int db)" by (simp add: db_ok_def empty_db_def)
  have b: "column_error (issue_of r2 demo_lib undated_item) = None" by code_simp
  have s: "i_start_date undated_item = Some ''TBA''" by code_simp
  have e: "iso_date_of demo_lib (i_end_date undated_item) = None" by code_simp
  have n: "i_security_name undated_item = Some ''Acme Ltd''" "i_detail_url undated_item = None"
    by code_simp+
  have c4: "\<exists>d' r. process_item r2 demo_lib undated_item empty_db = Inr d'
          \<and> rows_with_identity (issue_of r2 demo_lib undated_item) d' = [r]
          \<and> start_date r = None
          \<and> identity_key r = (Some ''Acme Ltd'', None, None, None)"
    using T [of demo_lib None "''TBA''" "''%d-%m-%Y''" ?D "[]" "[]" empty_db r2 undated_item]
      a b c3 s e n
    by auto
  show ?thesis using c1 p1 p2 q1 c2 r1 r2' c3 a b s c4 by blast
qed

text \<open>
  C1 (as the claim states it, refuted).  An item without a security name is looked up
  with \<open>IS NULL\<close>, not found, and its insert is rejected by the \<open>NOT NULL\<close> column:
  after two calls the database is still empty, so the identity key has no row.  The
  same holds for an item whose name is longer than the width of the column.
\<close>

theorem rejected_record_counterexample:
  "process_item r2 demo_lib nameless_item empty_db = Inl IntegrityError
   \<and> db_after r2 demo_lib nameless_item (db_after r2 demo_lib nameless_item empty_db) = empty_db
   \<and> length (rows_with_identity (issue_of r2 demo_lib nameless_item)
               (db_after r2 demo_lib nameless_item (db_after r2 demo_lib nameless_item empty_db))) = 0
   \<and> process_item r2 demo_lib long_named_item empty_db = Inl DataError
   \<and> length (rows_with_identity (issue_of r2 demo_lib long_named_item)
               (db_after r2 demo_lib long_named_item (db_after r2 demo_lib long_named_item empty_db))) = 0"
proof -
  have a: "process_item r2 demo_lib nameless_item empty_db = Inl IntegrityError" by code_simp
  have b: "process_item r2 demo_lib long_named_item empty_db = Inl DataError" by code_simp
  have e: "rows_with_identity obj (empty_db :: int db) = []" for obj
    by (simp add: rows_with_identity_def empty_db_def)
  show ?thesis by (simp add: db_after_def a b e)
qed

text \<open>
  C1 (amended).  In a well-formed database, for every item that the table accepts (a
  security name that is not null, strings within the widths of their columns), the
  first call of \<open>process_item\<close> and a second call with the identical item both commit,
  and after each of them exactly one stored row has the identity key of the item.  The
  key is the name, the two normalised dates and the detail URL; the lookup compares all
  four, \<open>NULL\<close> matching \<open>NULL\<close>, so this covers items whose dates or detail URL are null.
  The database stays well-formed.
\<close>

theorem upsert_twice_one_row:
  assumes ok: "db_ok d" and col: "column_error (issue_of self lib item) = None"
  shows "(\<exists>d1 d2. process_item self lib item d = Inr d1
            \<and> process_item self lib item d1 = Inr d2
            \<and> length (rows_with_identity (issue_of self lib item) d1) = 1
            \<and> length (rows_with_identity (issue_of self lib item) d2) = 1
            \<and> db_ok d2)
       \<and> identity_key (issue_of self lib item) =
           (i_security_name item, iso_date_of lib (i_start_date item),
            iso_date_of lib (i_end_date item), i_detail_url item)
       \<and> filter (identity_filter (issue_of self lib item)) (issues d) =
           rows_with_identity (issue_of self lib item) d"
proof -
  obtain d1 where d1: "process_item self lib item d = Inr d1" "db_ok d1"
      "length (rows_with_identity (issue_of self lib item) d1) = 1"
    using process_item_ok [OF ok col] by blast
  obtain d2 where d2: "process_item self lib item d1 = Inr d2" "db_ok d2"
      "length (rows_with_identity (issue_of self lib item) d2) = 1"
    using process_item_ok [OF d1(2) col] by blast
  have key: "identity_key (issue_of self lib item) =
           (i_security_name item, iso_date_of lib (i_start_date item),
            iso_date_of lib (i_end_date item), i_detail_url item)"
    by (simp add: identity_key_def issue_of_def)
  show ?thesis using d1 d2 key filter_identity by blast
qed

theorem upsert_twice_one_row_witness:
  "db_ok (empty_db :: int db)
   \<and> column_error (issue_of r2 demo_lib undated_item) = None
   \<and> identity_key (issue_of r2 demo_lib undated_item) = (Some ''Acme Ltd'', None, None, None)
   \<and> (\<exists>d1 d2. process_item r2 demo_lib undated_item empty_db = Inr d1
          \<and> process_item r2 demo_lib undated_item d1 = Inr d2
          \<and> length (rows_with_identity (issue_of r2 demo_lib undated_item) d2) = 1)"
proof -
  have a: "db_ok (empty_db :: int db)" by (simp add: db_ok_def empty_db_def)
  have b: "column_error (issue_of r2 demo_lib undated_item) = None" by code_simp
  have c: "identity_key (issue_of r2 demo_lib undated_item) = (Some ''Acme Ltd'', None, None, None)"
    by code_simp
  from upsert_twice_one_row [OF a b] a b c show ?thesis by blast
qed

text \<open>
  C5.  When the lookup finds a stored row for the identity key of the item and the
  call commits, the database differs from the one before in that row only.  In it,
  each of the ten allow-listed columns has the incoming value if that value is true
  for Python (a non-empty string, a float that is true) and keeps its old value
  otherwise, so that \<open>None\<close> and the empty string never erase a value; the payload is
  the payload built from the item; the \<open>id\<close>, the security name, the two dates and the
  detail URL are as before.
\<close>

theorem upsert_update_frame:
  assumes ok: "db_ok d"
    and found: "one_or_none (filter (identity_filter (issue_of self lib item)) (issues d)) =
                  Inr (Some existing)"
    and fin: "process_item self lib item d = Inr d'"
  shows "issues d' =
           map (\<lambda>r. if r = existing then overwrite lib existing (issue_of self lib item) else r)
             (issues d)
       \<and> next_id d' = next_id d
       \<and> existing \<in> set (issues d)
       \<and> overwrite lib existing (issue_of self lib item) =
           existing
             \<lparr>exchange_platform := set_str (exchange_platform existing) (i_exchange_platform item),
              type_of_issue := set_str (type_of_issue existing) (i_type_of_issue item),
              type_of_issue_long := set_str (type_of_issue_long existing) (i_type_of_issue_long item),
              issue_status := set_str (issue_status existing) (i_issue_status item),
              security_type := set_str (security_type existing) (i_security_type item),
              offer_price_raw := set_str (offer_price_raw existing) (i_offer_price item),
              price_min := set_float lib (price_min existing) (coerce_float lib (i_price_min item)),
              price_max := set_float lib (price_max existing) (coerce_float lib (i_price_max item)),
              face_value := set_str (face_value existing) (i_face_value item),
              list_url := set_str (list_url existing) (i_list_url item),
              payload := build_payload self lib item\<rparr>
       \<and> set_str old val = (if val = None \<or> val = Some [] then old else val)
       \<and> set_float lib oldf valf =
           (if valf = None \<or> \<not> float_truthy lib (the valf) then oldf else valf)"
proof -
  let ?obj = "issue_of self lib item"
  let ?c = "overwrite lib existing ?obj"
  have one: "rows_with_identity ?obj d = [existing]"
    using one_or_none_Some [OF found] by (simp add: filter_identity)
  then have "existing \<in> set (rows_with_identity ?obj d)" by simp
  then have mem: "existing \<in> set (issues d)" by (simp add: rows_with_identity_def)
  have dist: "distinct (map row_id (issues d))" using ok by (simp add: db_ok_def)
  have upd: "update_commit d ?c = Inr d'"
    using fin found by (simp add: process_item_def new_issue_eq)
  have repl: "map (\<lambda>r. if row_id r = row_id ?c then ?c else r) (issues d) =
              map (\<lambda>r. if r = existing then ?c else r) (issues d)"
    by (rule map_replace_by_id [OF dist mem]) (simp add: overwrite_frame)
  have d': "d' = d\<lparr>issues := map (\<lambda>r. if r = existing then ?c else r) (issues d)\<rparr>"
    using upd repl by (auto simp: update_commit_def split: option.splits)
  have fields: "?c = existing
             \<lparr>exchange_platform := set_str (exchange_platform existing) (i_exchange_platform item),
              type_of_issue := set_str (type_of_issue existing) (i_type_of_issue item),
              type_of_issue_long := set_str (type_of_issue_long existing) (i_type_of_issue_long item),
              issue_status := set_str (issue_status existing) (i_issue_status item),
              security_type := set_str (security_type existing) (i_security_type item),
              offer_price_raw := set_str (offer_price_raw existing) (i_offer_price item),
              price_min := set_float lib (price_min existing) (coerce_float lib (i_price_min item)),
              price_max := set_float lib (price_max existing) (coerce_float lib (i_price_max item)),
              face_value := set_str (face_value existing) (i_face_value item),
              list_url := set_str (list_url existing) (i_list_url item),
              payload := build_payload self lib item\<rparr>"
    by (simp add: overwrite_def issue_of_def)
  have s: "set_str old val = (if val = None \<or> val = Some [] then old else val)"
    by (auto simp: set_str_def str_truthy_def split: option.splits)
  have f: "set_float lib oldf valf =
           (if valf = None \<or> \<not> float_truthy lib (the valf) then oldf else valf)"
    by (auto simp: set_float_def split: option.splits)
  show ?thesis using d' mem fields s f by simp
qed

theorem upsert_update_frame_witness:
  "db_ok stored_db
   \<and> one_or_none (filter (identity_filter (issue_of r2 demo_lib rescraped_item)) (issues stored_db)) =
       Inr (Some stored_row)
   \<and> process_item r2 demo_lib rescraped_item stored_db =
       Inr \<lparr>issues = [rescraped_row, other_row], next_id = 3\<rparr>
   \<and> overwrite demo_lib stored_row (issue_of r2 demo_lib rescraped_item) = rescraped_row
   \<and> issue_status rescraped_row = Some ''Forthcoming''
   \<and> exchange_platform rescraped_row = Some ''BSE SME''
   \<and> price_min rescraped_row = Some 100
   \<and> face_value rescraped_row = Some ''10''"
proof -
  have a: "db_ok stored_db" by code_simp
  have b: "one_or_none (filter (identity_filter (issue_of r2 demo_lib rescraped_item))
             (issues stored_db)) = Inr (Some stored_row)"
    by code_simp
  have c: "process_item r2 demo_lib rescraped_item stored_db =
       Inr \<lparr>issues = [rescraped_row, other_row], next_id = 3\<rparr>"
    by code_simp
  have ne: "other_row \<noteq> stored_row" by code_simp
  have v: "issue_status rescraped_row = Some ''Forthcoming''
     \<and> exchange_platform rescraped_row = Some ''BSE SME''
     \<and> price_min rescraped_row = Some 100 \<and> face_value rescraped_row = Some ''10''"
    by code_simp
  from upsert_update_frame [OF a b c]
  have "issues \<lparr>issues = [rescraped_row, other_row], next_id = 3\<rparr> =
          map (\<lambda>r. if r = stored_row
                    then overwrite demo_lib stored_row (issue_of r2 demo_lib rescraped_item) else r)
            (issues stored_db)"
    by (rule conjunct1)
  then have "overwrite demo_lib stored_row (issue_of r2 demo_lib rescraped_item) = rescraped_row"
    using ne by (simp add: stored_db_def)
  with a b c v show ?thesis by simp
qed

end
